theory Spec2Isabelle
  imports Main "HOL-Library.Sublist" "HOL-Library.AList"
begin

section \<open>Python values used by the client\<close>

text \<open>
  Text is modelled as \<^typ>\<open>string\<close>: one \<^typ>\<open>char\<close> per code point, for code points
  below 256. The character classes below are those of CPython 3 on that range.
\<close>

definition is_decimal :: "char \<Rightarrow> bool" where
  "is_decimal c = (c \<in> set ''0123456789'')"

fun digit_value :: "char \<Rightarrow> nat" where
  "digit_value c = of_char c - 48"

text \<open>\<^verbatim>\<open>str.isnumeric\<close>: every character has a numeric value and there is at least one.
  Below 256 the numeric characters are the ten decimal digits, the superscripts
  one, two and three (B9, B2, B3) and the fractions one quarter, one half and three
  quarters (BC, BD, BE).\<close>

definition is_numeric_char :: "char \<Rightarrow> bool" where
  "is_numeric_char c =
     (is_decimal c \<or> c \<in> set [CHR 0xB2, CHR 0xB3, CHR 0xB9, CHR 0xBC, CHR 0xBD, CHR 0xBE])"

definition isnumeric :: "string \<Rightarrow> bool" where
  "isnumeric s = (s \<noteq> [] \<and> list_all is_numeric_char s)"

text \<open>Whitespace as \<^verbatim>\<open>str.strip\<close> sees it, and as \<^verbatim>\<open>int\<close> sees it (the four
  separators 1C..1F are whitespace for the former only).\<close>

definition is_space :: "char \<Rightarrow> bool" where
  "is_space c =
     (c \<in> set [CHR 0x09, CHR 0x0A, CHR 0x0B, CHR 0x0C, CHR 0x0D, CHR 0x1C, CHR 0x1D,
                CHR 0x1E, CHR 0x1F, CHR 0x20, CHR 0x85, CHR 0xA0])"

definition is_int_space :: "char \<Rightarrow> bool" where
  "is_int_space c =
     (c \<in> set [CHR 0x09, CHR 0x0A, CHR 0x0B, CHR 0x0C, CHR 0x0D, CHR 0x20, CHR 0x85, CHR 0xA0])"

definition strip_with :: "(char \<Rightarrow> bool) \<Rightarrow> string \<Rightarrow> string" where
  "strip_with ws s = rev (dropWhile ws (rev (dropWhile ws s)))"

definition strip :: "string \<Rightarrow> string" where
  "strip s = strip_with is_space s"

text \<open>\<^verbatim>\<open>str(n)\<close> for an integer.\<close>

fun str_nat :: "nat \<Rightarrow> string" where
  "str_nat n =
     (if n < 10 then [''0123456789'' ! n]
      else str_nat (n div 10) @ [''0123456789'' ! (n mod 10)])"

declare str_nat.simps [simp del]

definition str_int :: "int \<Rightarrow> string" where
  "str_int i = (if i < 0 then CHR ''-'' # str_nat (nat (- i)) else str_nat (nat i))"

text \<open>\<^verbatim>\<open>int(s)\<close> in base ten: surrounding whitespace, one optional sign, then decimal
  digits where single underscores may separate two digits. \<^const>\<open>None\<close> is the
  \<^verbatim>\<open>ValueError\<close>. The interpreter's limit on the number of digits of a literal (a
  setting, 4300 unless changed) is not part of the model.\<close>

fun parse_digits :: "nat \<Rightarrow> string \<Rightarrow> nat option" where
  "parse_digits acc [] = Some acc"
| "parse_digits acc [c] =
     (if is_decimal c then Some (acc * 10 + digit_value c) else None)"
| "parse_digits acc (c # d # cs) =
     (if is_decimal c then parse_digits (acc * 10 + digit_value c) (d # cs)
      else if c = CHR ''_'' \<and> is_decimal d then parse_digits (acc * 10 + digit_value d) cs
      else None)"

definition parse_unsigned :: "string \<Rightarrow> nat option" where
  "parse_unsigned s =
     (case s of [] \<Rightarrow> None
      | c # cs \<Rightarrow> if is_decimal c then parse_digits (digit_value c) cs else None)"

definition py_int :: "string \<Rightarrow> int option" where
  "py_int s =
     (case strip_with is_int_space s of
        [] \<Rightarrow> None
      | c # cs \<Rightarrow>
          if c = CHR ''-'' then map_option (\<lambda>n. - int n) (parse_unsigned cs)
          else if c = CHR ''+'' then map_option int (parse_unsigned cs)
          else map_option int (parse_unsigned (c # cs)))"

text \<open>\<^verbatim>\<open>s.split(sep)\<close> for a non-empty separator: the pieces between the successive
  occurrences of \<open>sep\<close>, found from the left without overlap.\<close>

function split_from :: "string \<Rightarrow> string \<Rightarrow> string \<Rightarrow> string list" where
  "split_from sep cur [] = [rev cur]"
| "split_from sep cur (c # cs) =
     (if sep \<noteq> [] \<and> prefix sep (c # cs)
      then rev cur # split_from sep [] (drop (length sep) (c # cs))
      else split_from sep (c # cur) cs)"
  by pat_completeness auto
termination
  by (relation "measure (\<lambda>(sep, cur, s). length s)") auto

definition split :: "string \<Rightarrow> string \<Rightarrow> string list" where
  "split s sep = split_from sep [] s"

text \<open>\<^verbatim>\<open>sub in s\<close> for text.\<close>

fun contains :: "string \<Rightarrow> string \<Rightarrow> bool" where
  "contains [] sub = (sub = [])"
| "contains (c # cs) sub = (prefix sub (c # cs) \<or> contains cs sub)"

text \<open>\<^verbatim>\<open>sep.join(parts)\<close>.\<close>

fun join :: "string \<Rightarrow> string list \<Rightarrow> string" where
  "join sep [] = []"
| "join sep [p] = p"
| "join sep (p # q # ps) = p @ sep @ join sep (q # ps)"

text \<open>\<^verbatim>\<open>str.lower\<close>: below 256 the letters with a lower-case form are A..Z and
  C0..DE without the multiplication sign D7; the lower-case form is 32 further.\<close>

definition lower_char :: "char \<Rightarrow> char" where
  "lower_char c =
     (let n = (of_char c :: nat)
      in if (65 \<le> n \<and> n \<le> 90) \<or> (192 \<le> n \<and> n \<le> 222 \<and> n \<noteq> 215) then char_of (n + 32) else c)"

definition lower :: "string \<Rightarrow> string" where
  "lower s = map lower_char s"

section \<open>The exception class of the client\<close>

text \<open>Keys of \<^verbatim>\<open>ERROR_CODES\<close> are integers and strings; the same type is the
  \<open>code\<close> argument of the constructor.\<close>

datatype pyobj = PyInt int | PyStr string

definition ERROR_CODES :: "(pyobj \<times> string) list" where
  "ERROR_CODES =
     [(PyInt 1, ''Could not authenticate''),
      (PyStr ''1'', ''Could not authenticate''),
      (PyInt 2, ''Could not find username when authenticating''),
      (PyStr ''2'', ''Could not find username when authenticating''),
      (PyInt 3, ''Could not authenticate to cumulus''),
      (PyStr ''3'', ''Could not authenticate to cumulus''),
      (PyInt 4, ''period_from and period_to should be datetime objects''),
      (PyStr ''4'', ''period_from and period_to should be datetime objects''),
      (PyInt 5, ''`period_from` should be <= to `period_to`''),
      (PyStr ''5'', ''`period_from` should be <= to `period_to`''),
      (PyInt 6, ''Request again the item and indicate request_pdf=True''),
      (PyStr ''6'', ''Request again the item and indicate request_pdf=True'')]"

definition dict_get :: "('k \<times> 'v) list \<Rightarrow> 'k \<Rightarrow> 'v option" where
  "dict_get d k = map_of d k"

text \<open>The exceptions that travel through the client. \<open>MigrosApiError code msg\<close> is an
  instance of \<^verbatim>\<open>ExceptionMigrosApi\<close> with its two fields; \<open>PyException\<close> is a plain
  \<^verbatim>\<open>Exception(text)\<close>; \<open>RequestException\<close> stands for
  \<^verbatim>\<open>requests.exceptions.RequestException\<close> and its subclasses; the others are raised
  by the interpreter or a library. Each carries the text that \<^verbatim>\<open>str\<close> gives.\<close>

datatype exc =
    MigrosApiError "string option" "string option"
  | PyException string
  | RequestException string
  | ValueError string
  | AttributeError string
  | OtherError string

fun str_pyobj :: "pyobj \<Rightarrow> string" where
  "str_pyobj (PyInt i) = str_int i"
| "str_pyobj (PyStr s) = s"

text \<open>\<^verbatim>\<open>repr\<close> of a text: in single quotes, or in double quotes when the text has a
  single quote and no double quote; the quote in use and the backslash are escaped, tab,
  newline and carriage return are written with their letters, and every other character
  that cannot be printed (below 20, 7F to A0, AD) as \<^verbatim>\<open>\x\<close> and two hexadecimal digits.\<close>

definition hex2 :: "char \<Rightarrow> string" where
  "hex2 c =
     (let n = (of_char c :: nat)
      in [''0123456789abcdef'' ! (n div 16), ''0123456789abcdef'' ! (n mod 16)])"

definition is_printable :: "char \<Rightarrow> bool" where
  "is_printable c =
     (let n = (of_char c :: nat) in (32 \<le> n \<and> n < 127) \<or> (160 < n \<and> n \<noteq> 173))"

definition repr_char :: "char \<Rightarrow> char \<Rightarrow> string" where
  "repr_char quote c =
     (if c = quote \<or> c = CHR 0x5C then [CHR 0x5C, c]
      else if c = CHR 0x09 then [CHR 0x5C, CHR ''t'']
      else if c = CHR 0x0A then [CHR 0x5C, CHR ''n'']
      else if c = CHR 0x0D then [CHR 0x5C, CHR ''r'']
      else if is_printable c then [c]
      else [CHR 0x5C, CHR ''x''] @ hex2 c)"

definition repr_str :: "string \<Rightarrow> string" where
  "repr_str s =
     (let quote = (if CHR 0x27 \<in> set s \<and> CHR 0x22 \<notin> set s then CHR 0x22 else CHR 0x27)
      in [quote] @ concat (map (repr_char quote) s) @ [quote])"

text \<open>The exception of a failed \<^verbatim>\<open>int\<close>: its message shows the first 200 characters of
  the \<^verbatim>\<open>repr\<close> of the text.\<close>

definition int_error :: "string \<Rightarrow> exc" where
  "int_error s =
     ValueError (''invalid literal for int() with base 10: '' @ take 200 (repr_str s))"

text \<open>\<^verbatim>\<open>ExceptionMigrosApi.__init__(code, message)\<close>; \<open>Inl\<close> is an exception raised
  inside the constructor, \<open>Inr\<close> the constructed instance.\<close>

definition ExceptionMigrosApi_init :: "pyobj option \<Rightarrow> string option \<Rightarrow> exc + exc" where
  "ExceptionMigrosApi_init code message =
     (let self_code = map_option str_pyobj code
      in case message of
           Some m \<Rightarrow> Inr (MigrosApiError self_code (Some m))
         | None \<Rightarrow>
            (case self_code of
               Some c \<Rightarrow>
                 (case dict_get ERROR_CODES (PyStr c) of
                    Some m \<Rightarrow>
                      if m \<noteq> [] then Inr (MigrosApiError self_code (Some m))
                      else (case py_int c of
                              None \<Rightarrow> Inl (int_error c)
                            | Some i \<Rightarrow> Inr (MigrosApiError self_code (dict_get ERROR_CODES (PyInt i))))
                  | None \<Rightarrow>
                      (case py_int c of
                         None \<Rightarrow> Inl (int_error c)
                       | Some i \<Rightarrow> Inr (MigrosApiError self_code (dict_get ERROR_CODES (PyInt i)))))
             | None \<Rightarrow> Inr (MigrosApiError self_code (Some ''Unknown error occurred''))))"

text \<open>\<^verbatim>\<open>raise ExceptionMigrosApi(code, message)\<close>: what reaches the handler is the
  instance, or the exception of the constructor.\<close>

definition raise_ExceptionMigrosApi :: "pyobj option \<Rightarrow> string option \<Rightarrow> exc" where
  "raise_ExceptionMigrosApi code message =
     (case ExceptionMigrosApi_init code message of Inl e \<Rightarrow> e | Inr e \<Rightarrow> e)"

text \<open>\<^verbatim>\<open>str(e)\<close>; for the client's class this is \<^verbatim>\<open>__str__\<close>, where a missing
  message prints as \<^verbatim>\<open>None\<close> after a non-empty code.\<close>

fun str_exc :: "exc \<Rightarrow> string" where
  "str_exc (MigrosApiError c m) =
     (case c of
        Some cs \<Rightarrow>
          if cs \<noteq> [] then ''Error '' @ cs @ '': '' @ (case m of Some t \<Rightarrow> t | None \<Rightarrow> ''None'')
          else (case m of Some t \<Rightarrow> t | None \<Rightarrow> ''None'')
      | None \<Rightarrow> (case m of Some t \<Rightarrow> t | None \<Rightarrow> ''None''))"
| "str_exc (PyException t) = t"
| "str_exc (RequestException t) = t"
| "str_exc (ValueError t) = t"
| "str_exc (AttributeError t) = t"
| "str_exc (OtherError t) = t"

section \<open>Parsed markup\<close>

text \<open>
  The HTML parser (\<^verbatim>\<open>BeautifulSoup\<close>) is a library and enters the model as a
  parameter \<open>bs\<close>; what the client works on is the parsed tree. A tag has a name, its
  attributes, the tokens of its \<^verbatim>\<open>class\<close> attribute (the one multi-valued attribute
  the client looks at) and its children; a text node is a \<open>NavigableString\<close>.
  Comments and other special text nodes are not represented.
\<close>

datatype node =
    Tag string "(string \<times> string) list" "string list" "node list"
  | NavigableString string

text \<open>\<^verbatim>\<open>.descendants\<close>: everything below a node, in document order.\<close>

fun descendants :: "node \<Rightarrow> node list" where
  "descendants (Tag nm ats cls ks) = concat (map (\<lambda>k. k # descendants k) ks)"
| "descendants (NavigableString s) = []"

text \<open>An element found in a document is kept together with \<^verbatim>\<open>.next_elements\<close>, the
  nodes that come after it in document order; that is what \<^verbatim>\<open>find_next\<close> walks.\<close>

type_synonym element = "node \<times> node list"

fun find_all :: "(node \<Rightarrow> bool) \<Rightarrow> node list \<Rightarrow> element list" where
  "find_all P [] = []"
| "find_all P (x # after) = (if P x then (x, after) # find_all P after else find_all P after)"

definition find_next :: "(node \<Rightarrow> bool) \<Rightarrow> element \<Rightarrow> element option" where
  "find_next P el =
     (case dropWhile (\<lambda>n. \<not> P n) (snd el) of [] \<Rightarrow> None | x # after \<Rightarrow> Some (x, after))"

text \<open>\<^verbatim>\<open>tag.get(key)\<close>.\<close>

fun get :: "node \<Rightarrow> string \<Rightarrow> string option" where
  "get (Tag nm ats cls ks) key = map_of ats key"
| "get (NavigableString s) key = None"

fun is_tag :: "string \<Rightarrow> node \<Rightarrow> bool" where
  "is_tag name (Tag nm ats cls ks) = (nm = name)"
| "is_tag name (NavigableString s) = False"

fun has_class :: "string list \<Rightarrow> node \<Rightarrow> bool" where
  "has_class wanted (Tag nm ats cls ks) = (\<exists>c \<in> set cls. c \<in> set wanted)"
| "has_class wanted (NavigableString s) = False"

text \<open>\<^verbatim>\<open>.text\<close> and \<^verbatim>\<open>get_text(strip=True)\<close>.\<close>

fun strings :: "node \<Rightarrow> string list" where
  "strings (Tag nm ats cls ks) = concat (map strings ks)"
| "strings (NavigableString s) = [s]"

definition get_text :: "node \<Rightarrow> string" where
  "get_text n = concat (strings n)"

definition get_text_strip :: "node \<Rightarrow> string" where
  "get_text_strip n = concat (filter (\<lambda>s. s \<noteq> []) (map strip (strings n)))"

section \<open>Extraction of one listing page\<close>

record receipt =
  pdf_ref :: string
  receipt_id :: string
  store_name :: string
  cost :: string
  cumulus_points :: string

text \<open>The result dictionary keeps insertion order, and storing under a key that is
  present replaces the value in place: \<^const>\<open>AList.update\<close>. A key is the
  \<^verbatim>\<open>value\<close> attribute of a checkbox, \<^const>\<open>None\<close> when the attribute is missing.\<close>

type_synonym result_dict = "(string option \<times> receipt) list"

record response =
  content :: string
  url :: string
  status_code :: nat
  reason :: string

text \<open>The pagination loop over \<^verbatim>\<open>soup.find_all('a', attrs={"aria-label": "Seite"})\<close>.\<close>

definition pagination_link :: "node \<Rightarrow> bool" where
  "pagination_link n = (is_tag ''a'' n \<and> get n ''aria-label'' = Some ''Seite'')"

fun collect_pages :: "element list \<Rightarrow> int list \<Rightarrow> exc + int list" where
  "collect_pages [] pages = Inr pages"
| "collect_pages (item # items) pages =
     (case get (fst item) ''data-value'' of
        None \<Rightarrow> collect_pages items pages
      | Some page_value \<Rightarrow>
          if page_value \<noteq> [] \<and> isnumeric page_value
          then (case py_int page_value of
                  None \<Rightarrow> Inl (int_error page_value)
                | Some v \<Rightarrow> collect_pages items (pages @ [v]))
          else collect_pages items pages)"

definition max_list :: "int list \<Rightarrow> int" where
  "max_list pages = fold max (tl pages) (hd pages)"

definition total_pages_of :: "int list \<Rightarrow> int" where
  "total_pages_of pages = (if pages \<noteq> [] then max_list pages else 1)"

text \<open>The loop over \<^verbatim>\<open>soup.find_all('input', attrs={'type': 'checkbox'})\<close>. A tag is
  true as a condition, so \<^verbatim>\<open>all([store_name, cost, points])\<close> asks that the three cells
  were found.\<close>

definition checkbox :: "node \<Rightarrow> bool" where
  "checkbox n = (is_tag ''input'' n \<and> get n ''type'' = Some ''checkbox'')"

definition toggle_modal_link :: "node \<Rightarrow> bool" where
  "toggle_modal_link n = (is_tag ''a'' n \<and> has_class [''ui-js-toggle-modal''] n)"

text \<open>The message of the \<^verbatim>\<open>AttributeError\<close> for \<^verbatim>\<open>None.split\<close>.\<close>

definition none_has_no_split :: string where
  "none_has_no_split =
     [CHR 0x27] @ ''NoneType'' @ [CHR 0x27] @ '' object has no attribute ''
       @ [CHR 0x27] @ ''split'' @ [CHR 0x27]"

fun parse_items :: "element list \<Rightarrow> result_dict \<Rightarrow> exc + result_dict" where
  "parse_items [] result_dict = Inr result_dict"
| "parse_items (item # items) result_dict =
     (if get (fst item) ''value'' = Some ''all'' then parse_items items result_dict
      else
        let download_id = get (fst item) ''value''
        in case find_next toggle_modal_link item of
             None \<Rightarrow> parse_items items result_dict
           | Some pdf \<Rightarrow>
              (case get (fst pdf) ''href'' of
                 None \<Rightarrow> Inl (AttributeError none_has_no_split)
               | Some href \<Rightarrow>
                  (case find_next (is_tag ''td'') pdf of
                     None \<Rightarrow> parse_items items result_dict
                   | Some store \<Rightarrow>
                      (case find_next (is_tag ''td'') store of
                         None \<Rightarrow> parse_items items result_dict
                       | Some cst \<Rightarrow>
                          (case find_next (is_tag ''td'') cst of
                             None \<Rightarrow> parse_items items result_dict
                           | Some points \<Rightarrow>
                               parse_items items
                                 (AList.update download_id
                                    \<lparr>pdf_ref = href,
                                     receipt_id = last (split href ''receiptId=''),
                                     store_name = strip (get_text (fst store)),
                                     cost = strip (get_text (fst cst)),
                                     cumulus_points = strip (get_text (fst points))\<rparr>
                                    result_dict))))))"

text \<open>\<^verbatim>\<open>_parse_receipt_data(response, result_dict)\<close>: the page count and the updated
  dictionary, or the plain exception that wraps whatever was raised inside. After a raise
  the client does not look at the dictionary again, so none is returned then.\<close>

definition parse_receipt_data ::
  "(string \<Rightarrow> string \<Rightarrow> string + node) \<Rightarrow> response \<Rightarrow> result_dict \<Rightarrow> exc + int \<times> result_dict" where
  "parse_receipt_data bs response result_dict =
     (case
        (case bs (content response) ''lxml'' of
           Inl t \<Rightarrow> Inl (OtherError t)
         | Inr soup \<Rightarrow>
            (case collect_pages (find_all pagination_link (descendants soup)) [] of
               Inl e \<Rightarrow> Inl e
             | Inr pages \<Rightarrow>
                (case parse_items (find_all checkbox (descendants soup)) result_dict of
                   Inl e \<Rightarrow> Inl e
                 | Inr d \<Rightarrow> Inr (total_pages_of pages, d))))
      of
        Inl err \<Rightarrow> Inl (PyException (''Failed to parse receipt data: '' @ str_exc err))
      | Inr r \<Rightarrow> Inr r)"

section \<open>The session\<close>

text \<open>
  The network is a parameter: \<open>net\<close> gives, for each request of one call, the response
  or the exception of the transport (within one call no request is sent twice). Each
  operation takes the trace of what the session has done so far and returns it extended,
  so the order of requests and pauses can be read off. Request headers and cookies are
  sent along but never read back by the client; they are left out of a request.
\<close>

datatype request =
    GET string "(string \<times> string) list"
  | POST string "(string \<times> string) list"

datatype event = Request request | Sleep nat

datatype transport_error = RequestError string | UnexpectedError string

type_synonym network = "request \<Rightarrow> transport_error + response"

type_synonym parser = "string \<Rightarrow> string \<Rightarrow> string + node"

type_synonym 'a outcome = "(exc + 'a) \<times> event list"

fun raise_transport :: "transport_error \<Rightarrow> exc" where
  "raise_transport (RequestError t) = RequestException t"
| "raise_transport (UnexpectedError t) = OtherError t"

definition session_request :: "network \<Rightarrow> request \<Rightarrow> event list \<Rightarrow> response outcome" where
  "session_request net rq tr =
     (case net rq of
        Inl f \<Rightarrow> (Inl (raise_transport f), tr @ [Request rq])
      | Inr r \<Rightarrow> (Inr r, tr @ [Request rq]))"

definition sleep :: "nat \<Rightarrow> event list \<Rightarrow> event list" where
  "sleep n tr = tr @ [Sleep n]"

text \<open>\<^verbatim>\<open>response.raise_for_status()\<close>.\<close>

definition raise_for_status :: "response \<Rightarrow> event list \<Rightarrow> unit outcome" where
  "raise_for_status r tr =
     (if 400 \<le> status_code r \<and> status_code r < 500
      then (Inl (RequestException
                  (str_nat (status_code r) @ '' Client Error: '' @ reason r @ '' for url: '' @ url r)), tr)
      else if 500 \<le> status_code r \<and> status_code r < 600
      then (Inl (RequestException
                  (str_nat (status_code r) @ '' Server Error: '' @ reason r @ '' for url: '' @ url r)), tr)
      else (Inr (), tr))"

text \<open>Sequencing: the next statement runs only when the one before it did not raise.
  \<open>except\<close> is a \<^verbatim>\<open>try\<close> whose handlers raise again, \<open>h\<close> giving what they raise.\<close>

definition then_do :: "'a outcome \<Rightarrow> ('a \<Rightarrow> event list \<Rightarrow> 'b outcome) \<Rightarrow> 'b outcome" where
  "then_do m f = (case m of (Inl e, tr) \<Rightarrow> (Inl e, tr) | (Inr a, tr) \<Rightarrow> f a tr)"

definition except :: "'a outcome \<Rightarrow> (exc \<Rightarrow> exc) \<Rightarrow> 'a outcome" where
  "except m h = (case m of (Inl e, tr) \<Rightarrow> (Inl (h e), tr) | (Inr a, tr) \<Rightarrow> (Inr a, tr))"

definition csrf_marker :: string where
  "csrf_marker = [CHR 0x22] @ ''_csrf'' @ [CHR 0x22] @ '' content='' @ [CHR 0x22]"

text \<open>\<^verbatim>\<open>re.search(self.csrf_pattern, text)\<close> with the pattern
  \<^verbatim>\<open>(?<="_csrf" content=")([^"]+)\<close>: the leftmost place that follows the marker and
  starts a non-empty run of characters other than the double quote; group 1 is that run.\<close>

fun csrf_search :: "string \<Rightarrow> string option" where
  "csrf_search [] = None"
| "csrf_search (c # cs) =
     (if prefix csrf_marker (c # cs)
      then (case takeWhile (\<lambda>x. x \<noteq> CHR 0x22) (drop (length csrf_marker) (c # cs)) of
              [] \<Rightarrow> csrf_search cs
            | t # ts \<Rightarrow> Some (t # ts))
      else csrf_search cs)"

definition main_page :: string where
  "main_page = ''https://www.migros.ch/''"

definition login_url :: string where
  "login_url = ''https://login.migros.ch/login''"

definition cumulus_login :: string where
  "cumulus_login = ''https://www.migros.ch/de/cumulus/konto~checkImmediate=true~.html''"

definition url_receipts :: "string \<Rightarrow> string \<Rightarrow> string" where
  "url_receipts date_from date_to =
     ''https://www.migros.ch/de/cumulus/konto/kassenbons.html?sort=dateDsc&dateFrom='' @ date_from
       @ ''&dateTo='' @ date_to"

definition url_export_data :: string where
  "url_export_data = ''https://www.migros.ch/service/avantaReceiptExport/''"

text \<open>\<^verbatim>\<open>_init_session\<close>: whatever is raised is raised again as it is.\<close>

definition init_session :: "network \<Rightarrow> event list \<Rightarrow> unit outcome" where
  "init_session net tr =
     then_do (session_request net (GET main_page []) tr) (\<lambda>response tr.
     then_do (raise_for_status response tr) (\<lambda>_ tr.
     (Inr (), sleep 1 tr)))"

text \<open>The three handlers of \<^verbatim>\<open>__authenticate\<close>, in their order.\<close>

fun authenticate_handler :: "exc \<Rightarrow> exc" where
  "authenticate_handler (RequestException t) =
     raise_ExceptionMigrosApi (Some (PyInt 1)) (Some (''Network error during authentication: '' @ t))"
| "authenticate_handler (MigrosApiError c m) = MigrosApiError c m"
| "authenticate_handler e =
     raise_ExceptionMigrosApi (Some (PyInt 1)) (Some (''Authentication failed: '' @ str_exc e))"

definition authenticate :: "network \<Rightarrow> parser \<Rightarrow> string \<Rightarrow> string \<Rightarrow> event list \<Rightarrow> unit outcome" where
  "authenticate net bs username password tr =
     except
      (then_do (session_request net (GET login_url []) tr) (\<lambda>response tr.
       then_do (raise_for_status response tr) (\<lambda>_ tr.
       let tr = sleep 1 tr
       in case csrf_search (content response) of
            None \<Rightarrow>
              (Inl (raise_ExceptionMigrosApi (Some (PyInt 1)) (Some ''CSRF token not found'')), tr)
          | Some csrf_token \<Rightarrow>
              let payload = [(''_csrf'', csrf_token), (''username'', username),
                             (''password'', password), (''remember-me'', ''true'')];
                  tr = sleep 2 tr
              in then_do (session_request net (POST login_url payload) tr) (\<lambda>response tr.
                 then_do (raise_for_status response tr) (\<lambda>_ tr.
                 case bs (content response) ''html.parser'' of
                   Inl t \<Rightarrow> (Inl (OtherError t), tr)
                 | Inr soup \<Rightarrow>
                     let error_messages =
                           find_all (has_class [''error'', ''error-message'', ''alert-danger''])
                             (descendants soup)
                     in if error_messages \<noteq> []
                        then (Inl (raise_ExceptionMigrosApi (Some (PyInt 1))
                                    (Some (''Login failed: ''
                                       @ join '' | '' (map (\<lambda>msg. get_text_strip (fst msg)) error_messages)))),
                              tr)
                        else if contains (lower (url response)) ''authentication_error''
                        then (Inl (raise_ExceptionMigrosApi (Some (PyInt 1)) (Some ''Authentication failed'')),
                              tr)
                        else (Inr (), tr))))))
      authenticate_handler"

text \<open>\<^verbatim>\<open>_login_cumulus\<close> and its two handlers.\<close>

fun login_cumulus_handler :: "exc \<Rightarrow> exc" where
  "login_cumulus_handler (MigrosApiError c m) = MigrosApiError c m"
| "login_cumulus_handler e =
     raise_ExceptionMigrosApi (Some (PyInt 3)) (Some (''Cumulus login failed: '' @ str_exc e))"

fun mentions_cumulus :: "node \<Rightarrow> bool" where
  "mentions_cumulus (NavigableString s) = contains s ''Cumulus''"
| "mentions_cumulus (Tag nm ats cls ks) = False"

definition login_cumulus :: "network \<Rightarrow> parser \<Rightarrow> string \<Rightarrow> string \<Rightarrow> event list \<Rightarrow> unit outcome" where
  "login_cumulus net bs username password tr =
     except
      (then_do (authenticate net bs username password tr) (\<lambda>_ tr.
       then_do (session_request net
                  (GET cumulus_login
                     [(''referrer'', ''https://www.migros.ch/resources/loginPage~lang=de~.html''),
                      (''referrerPolicy'', ''no-referrer-when-downgrade'')]) tr) (\<lambda>response tr.
       then_do (raise_for_status response tr) (\<lambda>_ tr.
       case bs (content response) ''html.parser'' of
         Inl t \<Rightarrow> (Inl (OtherError t), tr)
       | Inr soup \<Rightarrow>
           let cumulus_elements = find_all mentions_cumulus (descendants soup)
           in if cumulus_elements = []
              then (Inl (raise_ExceptionMigrosApi (Some (PyInt 3)) (Some ''Failed to access Cumulus account'')),
                    tr)
              else (Inr (), tr)))))
      login_cumulus_handler"

text \<open>The constructor \<^verbatim>\<open>MigrosApi(password, username)\<close>: warm-up, then login; its
  handler raises again what it caught.\<close>

record MigrosApi =
  username :: string
  password :: string
  user_real_name :: string

definition MigrosApi_init ::
  "network \<Rightarrow> parser \<Rightarrow> string \<Rightarrow> string \<Rightarrow> event list \<Rightarrow> MigrosApi outcome" where
  "MigrosApi_init net bs pw user tr =
     then_do (init_session net tr) (\<lambda>_ tr.
     then_do (login_cumulus net bs user pw tr) (\<lambda>_ tr.
     (Inr \<lparr>username = user, password = pw, user_real_name = []\<rparr>, tr)))"

section \<open>Listing receipts\<close>

text \<open>A \<^verbatim>\<open>datetime\<close> without time zone; such values compare field by field. An
  argument of \<^verbatim>\<open>get_all_receipts\<close> is a \<^verbatim>\<open>datetime\<close> or some other value.\<close>

record datetime =
  year :: nat
  month :: nat
  day :: nat
  hour :: nat
  minute :: nat
  second :: nat
  microsecond :: nat

datatype pyarg = Datetime datetime | NotDatetime pyobj

definition datetime_fields :: "datetime \<Rightarrow> nat list" where
  "datetime_fields d = [year d, month d, day d, hour d, minute d, second d, microsecond d]"

definition datetime_gt :: "datetime \<Rightarrow> datetime \<Rightarrow> bool" where
  "datetime_gt a b = lexordp (<) (datetime_fields b) (datetime_fields a)"

definition zfill :: "nat \<Rightarrow> string \<Rightarrow> string" where
  "zfill width s = replicate (width - length s) (CHR ''0'') @ s"

definition format_date :: "datetime \<Rightarrow> string" where
  "format_date date =
     str_nat (year date) @ ''-'' @ zfill 2 (str_nat (month date)) @ ''-'' @ zfill 2 (str_nat (day date))"

definition validate_dates :: "pyarg \<Rightarrow> pyarg \<Rightarrow> exc + datetime \<times> datetime" where
  "validate_dates period_from period_to =
     (case period_from of
        NotDatetime _ \<Rightarrow> Inl (raise_ExceptionMigrosApi (Some (PyInt 4)) None)
      | Datetime f \<Rightarrow>
         (case period_to of
            NotDatetime _ \<Rightarrow> Inl (raise_ExceptionMigrosApi (Some (PyInt 4)) None)
          | Datetime t \<Rightarrow>
              if datetime_gt f t then Inl (raise_ExceptionMigrosApi (Some (PyInt 5)) None)
              else Inr (f, t)))"

definition listing_params :: "(string \<times> string) list" where
  "listing_params =
     [(''referrer'', ''https://www.migros.ch/de/cumulus/konto/kassenbons.html''),
      (''referrerPolicy'', ''no-referrer-when-downgrade'')]"

definition listing_request :: "string \<Rightarrow> int \<Rightarrow> request" where
  "listing_request request_url current_page =
     GET (request_url @ ''&p='' @ str_int current_page) listing_params"

text \<open>The \<^verbatim>\<open>while True\<close> loop. It has no bound of its own: \<^const>\<open>None\<close> is the run
  that never leaves it. The list that a caller may pass as keyword argument
  \<^verbatim>\<open>response\<close> receives the response of each request of the trace; it is not kept
  separately here.\<close>

partial_function (option) fetch_pages ::
  "network \<Rightarrow> parser \<Rightarrow> string \<Rightarrow> int \<Rightarrow> result_dict \<Rightarrow> event list \<Rightarrow> result_dict outcome option" where
  "fetch_pages net bs request_url current_page final_dict tr =
     (case session_request net (listing_request request_url current_page) tr of
        (Inl e, tr) \<Rightarrow> Some (Inl e, tr)
      | (Inr response, tr) \<Rightarrow>
         (case parse_receipt_data bs response final_dict of
            Inl e \<Rightarrow> Some (Inl e, tr)
          | Inr (total_pages, final_dict) \<Rightarrow>
              if current_page \<ge> total_pages then Some (Inr final_dict, tr)
              else fetch_pages net bs request_url (current_page + 1) final_dict (sleep 1 tr)))"

declare fetch_pages.simps [code]

text \<open>The two handlers of \<^verbatim>\<open>get_all_receipts\<close>.\<close>

fun get_all_receipts_handler :: "exc \<Rightarrow> exc" where
  "get_all_receipts_handler (MigrosApiError c m) = MigrosApiError c m"
| "get_all_receipts_handler e = PyException (''Failed to get receipts: '' @ str_exc e)"

definition get_all_receipts ::
  "network \<Rightarrow> parser \<Rightarrow> pyarg \<Rightarrow> pyarg \<Rightarrow> event list \<Rightarrow> result_dict outcome option" where
  "get_all_receipts net bs period_from period_to tr =
     (case validate_dates period_from period_to of
        Inl e \<Rightarrow> Some (Inl (get_all_receipts_handler e), tr)
      | Inr (f, t) \<Rightarrow>
          map_option (\<lambda>r. except r get_all_receipts_handler)
            (fetch_pages net bs (url_receipts (format_date f) (format_date t)) 1 [] tr))"

section \<open>One receipt\<close>

text \<open>The class \<^verbatim>\<open>ReceiptItem\<close> is not part of the client; its constructor is the
  parameter \<open>ReceiptItem\<close>, which returns the item or raises. The argument
  \<^verbatim>\<open>receipt_id\<close> is \<open>receipt\<close> here, and \<open>cleaned\<close> after its reassignment.\<close>

definition get_receipt ::
  "network \<Rightarrow> (string \<Rightarrow> string \<Rightarrow> string \<Rightarrow> exc + 'r) \<Rightarrow> string \<Rightarrow> event list \<Rightarrow> 'r outcome" where
  "get_receipt net ReceiptItem receipt tr =
     (let params = listing_params;
          request_url = url_export_data @ ''html?receiptId='' @ receipt;
          request_pdf = url_export_data @ ''pdf?receiptId='' @ receipt;
          handler = (\<lambda>rid e. case e of
              RequestException t \<Rightarrow>
                raise_ExceptionMigrosApi (Some (PyStr (''Failed to retrieve receipt '' @ rid))) None
            | _ \<Rightarrow>
                raise_ExceptionMigrosApi
                  (Some (PyStr (''Failed to process receipt '' @ rid @ '': '' @ str_exc e))) None)
      in then_do
           (except
             (then_do (session_request net (GET request_url params) tr) (\<lambda>response tr.
              then_do (session_request net (GET request_pdf params) tr) (\<lambda>response_pdf tr.
              then_do (raise_for_status response tr) (\<lambda>_ tr.
              then_do (raise_for_status response_pdf tr) (\<lambda>_ tr.
              (Inr (response, response_pdf), tr))))))
             (handler receipt))
           (\<lambda>(response, response_pdf) tr.
              let cleaned = hd (split receipt ''?'')
              in case ReceiptItem cleaned (content response) (content response_pdf) of
                   Inl e \<Rightarrow> (Inl (handler cleaned e), tr)
                 | Inr item \<Rightarrow> (Inr item, tr)))"

section \<open>Observations on a run\<close>

text \<open>
  What the statements below read off a run. \<open>gaps\<close> gives, for each pair of successive
  requests of a trace, the sum of the pauses between them. \<open>page_trail url p n\<close> is the
  trace of \<open>n\<close> listing requests for the pages \<open>p\<close>, \<open>p + 1\<close>, ... with a pause of one
  between two of them. \<open>page_count\<close> is the page count that the extraction of page \<open>p\<close>
  returns, when the page can be fetched and extracted; \<open>merge_pages\<close> is the dictionary
  after the extraction of \<open>n\<close> pages from \<open>p\<close> on. \<open>login_trail\<close> is the trace of a
  complete login.
\<close>

fun gaps_from :: "nat option \<Rightarrow> event list \<Rightarrow> nat list" where
  "gaps_from acc [] = []"
| "gaps_from acc (Sleep n # es) = gaps_from (map_option (\<lambda>a. a + n) acc) es"
| "gaps_from acc (Request r # es) =
     (case acc of None \<Rightarrow> [] | Some a \<Rightarrow> [a]) @ gaps_from (Some 0) es"

definition gaps :: "event list \<Rightarrow> nat list" where
  "gaps tr = gaps_from None tr"

fun page_trail :: "string \<Rightarrow> int \<Rightarrow> nat \<Rightarrow> event list" where
  "page_trail request_url p 0 = []"
| "page_trail request_url p (Suc n) =
     Request (listing_request request_url p)
       # (if n = 0 then [] else Sleep 1 # page_trail request_url (p + 1) n)"

definition page_count :: "network \<Rightarrow> parser \<Rightarrow> string \<Rightarrow> int \<Rightarrow> int option" where
  "page_count net bs request_url p =
     (case net (listing_request request_url p) of
        Inl _ \<Rightarrow> None
      | Inr response \<Rightarrow>
         (case parse_receipt_data bs response [] of
            Inl _ \<Rightarrow> None
          | Inr (total_pages, _) \<Rightarrow> Some total_pages))"

fun merge_pages :: "network \<Rightarrow> parser \<Rightarrow> string \<Rightarrow> int \<Rightarrow> nat \<Rightarrow> result_dict \<Rightarrow> result_dict" where
  "merge_pages net bs request_url p 0 d = d"
| "merge_pages net bs request_url p (Suc n) d =
     (case net (listing_request request_url p) of
        Inl _ \<Rightarrow> d
      | Inr response \<Rightarrow>
         (case parse_receipt_data bs response d of
            Inl _ \<Rightarrow> d
          | Inr (total_pages, d') \<Rightarrow> merge_pages net bs request_url (p + 1) n d'))"

definition login_trail :: "string \<Rightarrow> string \<Rightarrow> string \<Rightarrow> event list" where
  "login_trail user pw csrf_token =
     [Request (GET main_page []), Sleep 1,
      Request (GET login_url []), Sleep 1, Sleep 2,
      Request (POST login_url [(''_csrf'', csrf_token), (''username'', user),
                               (''password'', pw), (''remember-me'', ''true'')]),
      Request (GET cumulus_login
                 [(''referrer'', ''https://www.migros.ch/resources/loginPage~lang=de~.html''),
                  (''referrerPolicy'', ''no-referrer-when-downgrade'')])]"

section \<open>Example inputs\<close>

text \<open>Concrete pages, parsers and networks on which the operations are run below. A
  listing page is a table with one row per receipt (selector cell, link cell, three data
  cells) followed by the pagination links.\<close>

definition ok_response :: "string \<Rightarrow> string \<Rightarrow> response" where
  "ok_response u body = \<lparr>content = body, url = u, status_code = 200, reason = ''OK''\<rparr>"

definition jan_01 :: datetime where
  "jan_01 = \<lparr>year = 2024, month = 1, day = 1, hour = 0, minute = 0, second = 0, microsecond = 0\<rparr>"

definition jan_31 :: datetime where
  "jan_31 = \<lparr>year = 2024, month = 1, day = 31, hour = 0, minute = 0, second = 0, microsecond = 0\<rparr>"

definition january :: string where
  "january = url_receipts ''2024-01-01'' ''2024-01-31''"

definition td :: "string \<Rightarrow> node" where
  "td s = Tag ''td'' [] [] [NavigableString s]"

definition checkbox_cell :: "string \<Rightarrow> node" where
  "checkbox_cell v = Tag ''td'' [] [] [Tag ''input'' [(''type'', ''checkbox''), (''value'', v)] [] []]"

definition link_cell :: "string \<Rightarrow> node" where
  "link_cell h =
     Tag ''td'' [] [] [Tag ''a'' [(''href'', h)] [''ui-js-toggle-modal''] [NavigableString ''PDF'']]"

definition receipt_row :: "string \<Rightarrow> string \<Rightarrow> string \<Rightarrow> string \<Rightarrow> string \<Rightarrow> node" where
  "receipt_row v h s c p = Tag ''tr'' [] [] [checkbox_cell v, link_cell h, td s, td c, td p]"

definition page_link :: "string \<Rightarrow> node" where
  "page_link v = Tag ''a'' [(''aria-label'', ''Seite''), (''data-value'', v)] [] [NavigableString v]"

definition listing :: "node list \<Rightarrow> node list \<Rightarrow> node" where
  "listing rows links =
     Tag ''html'' [] [] [Tag ''body'' [] [] [Tag ''table'' [] [] rows, Tag ''div'' [] [] links]]"

definition page_one :: node where
  "page_one =
     listing [receipt_row ''d1'' ''/export/html?receiptId=r1'' '' Migros Bern '' ''12.50'' ''12'',
              receipt_row ''d2'' ''/export/html?receiptId=r2'' ''Migros Thun'' ''7.90'' ''7'']
             [page_link ''1'', page_link ''2'']"

definition page_two :: node where
  "page_two =
     listing [receipt_row ''d3'' ''/export/html?receiptId=r3'' ''Migros Biel'' ''3.20'' ''3'']
             [page_link ''1'', page_link ''2'']"

definition page_two_of_three :: node where
  "page_two_of_three =
     listing [receipt_row ''d3'' ''/export/html?receiptId=r3'' ''Migros Biel'' ''3.20'' ''3'']
             [page_link ''1'', page_link ''2'', page_link ''3'']"

definition page_three :: node where
  "page_three = listing [] [page_link ''1'', page_link ''2'', page_link ''3'']"

definition page_with_gaps :: node where
  "page_with_gaps = listing [] [page_link ''1'', page_link ''2'', page_link ''3'', page_link ''5'']"

definition page_superscript :: node where
  "page_superscript = listing [] [page_link ''1'', page_link [CHR 0xB2]]"

definition page_row_without_link :: node where
  "page_row_without_link =
     listing [Tag ''tr'' [] [] [checkbox_cell ''A'', td ''pending''],
              receipt_row ''B'' ''/export/html?receiptId=R2'' ''Migros Chur'' ''9.90'' ''9'']
             []"

definition page_row_without_points :: node where
  "page_row_without_points =
     listing [Tag ''tr'' [] [] [checkbox_cell ''A'', link_cell ''/export/html?receiptId=R1'',
                               td ''Migros Olten'', td ''4.00''],
              receipt_row ''B'' ''/export/html?receiptId=R2'' ''Migros Chur'' ''9.90'' ''9'']
             []"

definition page_link_without_href :: node where
  "page_link_without_href =
     listing [Tag ''tr'' [] []
                [checkbox_cell ''A'',
                 Tag ''td'' [] [] [Tag ''a'' [] [''ui-js-toggle-modal''] [NavigableString ''PDF'']],
                 td ''Migros Chur'', td ''9.90'', td ''9'']]
             []"

text \<open>A parser for the bodies used below: the pages above under their names, and any
  other body as plain text, which it wraps in a paragraph and never rejects.\<close>

definition example_bs :: parser where
  "example_bs markup features =
     (if markup = ''page one'' then Inr page_one
      else if markup = ''page two'' then Inr page_two
      else if markup = ''page two of three'' then Inr page_two_of_three
      else if markup = ''page three'' then Inr page_three
      else if markup = ''gaps'' then Inr page_with_gaps
      else if markup = ''superscript'' then Inr page_superscript
      else if markup = ''row without link'' then Inr page_row_without_link
      else if markup = ''row without points'' then Inr page_row_without_points
      else if markup = ''signed in'' then Inr (Tag ''html'' [] [] [Tag ''p'' [] [''info''] [NavigableString ''Welcome'']])
      else if markup = ''account'' then Inr (Tag ''html'' [] [] [Tag ''h1'' [] [] [NavigableString ''Ihr Cumulus Konto'']])
      else if markup = ''link without href'' then Inr page_link_without_href
      else Inr (Tag ''html'' [] [] [Tag ''body'' [] [] [Tag ''p'' [] [] [NavigableString markup]]]))"

definition two_page_net :: network where
  "two_page_net rq =
     (if rq = listing_request january 1 then Inr (ok_response january ''page one'')
      else if rq = listing_request january 2 then Inr (ok_response january ''page two'')
      else Inl (RequestError ''no route''))"

definition growing_net :: network where
  "growing_net rq =
     (if rq = listing_request january 1 then Inr (ok_response january ''page one'')
      else if rq = listing_request january 2 then Inr (ok_response january ''page two of three'')
      else if rq = listing_request january 3 then Inr (ok_response january ''page three'')
      else Inl (RequestError ''no route''))"

definition refusing_net :: network where
  "refusing_net rq = Inl (RequestError ''Connection refused'')"

definition not_found_response :: response where
  "not_found_response =
     \<lparr>content = ''<h1>Not Found</h1>'', url = login_url, status_code = 404, reason = ''Not Found''\<rparr>"

definition not_found_net :: network where
  "not_found_net rq = Inr not_found_response"

definition fixed_net :: "string \<Rightarrow> network" where
  "fixed_net body rq = Inr (ok_response [] body)"

definition login_page :: string where
  "login_page = ''<meta name='' @ csrf_marker @ ''tok123'' @ [CHR 0x22] @ ''>''"

fun login_net :: network where
  "login_net (GET u ps) =
     (if u = main_page then Inr (ok_response u ''welcome'')
      else if u = login_url then Inr (ok_response u login_page)
      else if u = cumulus_login then Inr (ok_response u ''account'')
      else Inl (RequestError ''no route''))"
| "login_net (POST u payload) = Inr (ok_response u ''signed in'')"

section \<open>The error catalog\<close>

lemma str_nat_digit [simp]: "n < 10 \<Longrightarrow> str_nat n = [''0123456789'' ! n]"
  by (simp add: str_nat.simps)

lemma py_int_digit: "is_decimal c \<Longrightarrow> py_int [c] = Some (int (digit_value c))"
  by (auto simp: py_int_def strip_with_def is_int_space_def is_decimal_def parse_unsigned_def)

lemma catalog_entries:
  "list_all (\<lambda>(k, m).
      ExceptionMigrosApi_init (Some k) None = Inr (MigrosApiError (Some (str_pyobj k)) (Some m))
    \<and> dict_get ERROR_CODES (PyStr (str_pyobj k)) = Some m
    \<and> (\<exists>i. py_int (str_pyobj k) = Some i \<and> dict_get ERROR_CODES (PyInt i) = Some m)) ERROR_CODES"
  unfolding ERROR_CODES_def ExceptionMigrosApi_init_def dict_get_def
  by (simp add: str_int_def py_int_digit is_decimal_def)

lemma init_custom_message:
  "ExceptionMigrosApi_init code (Some custom) =
     Inr (MigrosApiError (map_option str_pyobj code) (Some custom))"
  by (simp add: ExceptionMigrosApi_init_def)

lemma raise_custom_message [simp]:
  "raise_ExceptionMigrosApi code (Some custom) = MigrosApiError (map_option str_pyobj code) (Some custom)"
  by (simp add: raise_ExceptionMigrosApi_def init_custom_message)

text \<open>
  C8. For a code \<open>k\<close> that is a key of the catalog with message \<open>m\<close>: the constructor
  without a custom message gives the exception whose message is \<open>m\<close>; with a custom
  message it gives exactly that message; the string form of \<open>k\<close> is a key with the same
  message, and so is the number that this string form converts to.
\<close>

theorem constructor_catalog_message:
  assumes "dict_get ERROR_CODES k = Some m"
  shows "ExceptionMigrosApi_init (Some k) None = Inr (MigrosApiError (Some (str_pyobj k)) (Some m))
       \<and> ExceptionMigrosApi_init (Some k) (Some custom)
           = Inr (MigrosApiError (Some (str_pyobj k)) (Some custom))
       \<and> dict_get ERROR_CODES (PyStr (str_pyobj k)) = Some m
       \<and> (\<exists>i. py_int (str_pyobj k) = Some i \<and> dict_get ERROR_CODES (PyInt i) = Some m)"
proof -
  have "(k, m) \<in> set ERROR_CODES"
    using assms unfolding dict_get_def by (rule map_of_SomeD)
  with catalog_entries show ?thesis
    unfolding list_all_iff by (auto simp: init_custom_message)
qed

theorem constructor_catalog_message_witness:
  "dict_get ERROR_CODES (PyStr ''3'') = Some ''Could not authenticate to cumulus''
   \<and> ExceptionMigrosApi_init (Some (PyStr ''3'')) None
       = Inr (MigrosApiError (Some ''3'') (Some ''Could not authenticate to cumulus''))
   \<and> ExceptionMigrosApi_init (Some (PyStr ''3'')) (Some ''no access'')
       = Inr (MigrosApiError (Some ''3'') (Some ''no access''))
   \<and> dict_get ERROR_CODES (PyInt 3) = Some ''Could not authenticate to cumulus''"
proof -
  have h: "dict_get ERROR_CODES (PyStr ''3'') = Some ''Could not authenticate to cumulus''"
    by (simp add: dict_get_def ERROR_CODES_def)
  have i: "py_int ''3'' = Some 3"
    by (simp add: py_int_digit is_decimal_def)
  from constructor_catalog_message [OF h, of "''no access''"] h i show ?thesis
    by simp
qed

lemma string_keys_convert:
  "list_all (\<lambda>(k, m). py_int (str_pyobj k) \<noteq> None) ERROR_CODES"
  unfolding ERROR_CODES_def by (simp add: str_int_def py_int_digit is_decimal_def)

lemma not_convertible_not_key:
  assumes "py_int c = None"
  shows "dict_get ERROR_CODES (PyStr c) = None"
proof (cases "dict_get ERROR_CODES (PyStr c)")
  case None
  then show ?thesis .
next
  case (Some m)
  then have "(PyStr c, m) \<in> set ERROR_CODES"
    unfolding dict_get_def by (rule map_of_SomeD)
  with string_keys_convert have "py_int (str_pyobj (PyStr c)) \<noteq> None"
    unfolding list_all_iff by blast
  with assms show ?thesis by simp
qed

lemma strip_with_keeps_head:
  assumes "\<not> ws c"
  shows "\<exists>r. strip_with ws (c # cs) = c # r"
proof (cases "\<forall>x \<in> set cs. ws x")
  case True
  then have "strip_with ws (c # cs) = [c]"
    using assms by (simp add: strip_with_def dropWhile_append)
  then show ?thesis by simp
next
  case False
  then have "strip_with ws (c # cs) = c # rev (dropWhile ws (rev cs))"
    using assms by (simp add: strip_with_def dropWhile_append)
  then show ?thesis by simp
qed

lemma py_int_letter:
  assumes "\<not> is_int_space c" "\<not> is_decimal c" "c \<noteq> CHR ''-''" "c \<noteq> CHR ''+''"
  shows "py_int (c # cs) = None"
proof -
  obtain r where "strip_with is_int_space (c # cs) = c # r"
    using strip_with_keeps_head [of is_int_space c cs] assms(1) by blast
  then show ?thesis
    using assms by (simp add: py_int_def parse_unsigned_def)
qed

lemma init_not_convertible:
  assumes "py_int (str_pyobj k) = None"
  shows "dict_get ERROR_CODES k = None"
    and "ExceptionMigrosApi_init (Some k) None = Inl (int_error (str_pyobj k))"
    and "raise_ExceptionMigrosApi (Some k) None = int_error (str_pyobj k)"
proof -
  have a: "dict_get ERROR_CODES (PyStr (str_pyobj k)) = None"
    using assms by (rule not_convertible_not_key)
  show b: "dict_get ERROR_CODES k = None"
  proof (cases "dict_get ERROR_CODES k")
    case None
    then show ?thesis .
  next
    case (Some m)
    then have "(k, m) \<in> set ERROR_CODES"
      unfolding dict_get_def by (rule map_of_SomeD)
    with string_keys_convert have "py_int (str_pyobj k) \<noteq> None"
      unfolding list_all_iff by blast
    with assms show ?thesis by simp
  qed
  show "ExceptionMigrosApi_init (Some k) None = Inl (int_error (str_pyobj k))"
    using assms a by (simp add: ExceptionMigrosApi_init_def)
  then show "raise_ExceptionMigrosApi (Some k) None = int_error (str_pyobj k)"
    by (simp add: raise_ExceptionMigrosApi_def)
qed

text \<open>
  C10. A code whose string form does not convert to an integer (no key of the catalog has
  such a form), given without a custom message: the constructor raises the
  \<^verbatim>\<open>ValueError\<close> of the conversion, and that is what a \<^verbatim>\<open>raise\<close> of the exception
  delivers.
\<close>

theorem constructor_value_error:
  assumes "py_int (str_pyobj k) = None"
  shows "dict_get ERROR_CODES k = None
       \<and> ExceptionMigrosApi_init (Some k) None = Inl (int_error (str_pyobj k))
       \<and> raise_ExceptionMigrosApi (Some k) None = int_error (str_pyobj k)"
  using init_not_convertible [OF assms] by simp

theorem constructor_value_error_witness:
  "py_int (str_pyobj (PyStr ''Failed to retrieve receipt 42'')) = None
   \<and> ExceptionMigrosApi_init (Some (PyStr ''Failed to retrieve receipt 42'')) None
       = Inl (ValueError (''invalid literal for int() with base 10: ''
                @ repr_str ''Failed to retrieve receipt 42''))"
proof -
  have h: "py_int (str_pyobj (PyStr ''Failed to retrieve receipt 42'')) = None"
    by (simp add: py_int_letter is_int_space_def is_decimal_def)
  have e: "int_error ''Failed to retrieve receipt 42''
             = ValueError (''invalid literal for int() with base 10: ''
                 @ repr_str ''Failed to retrieve receipt 42'')"
    by code_simp
  from constructor_value_error [OF h] h e show ?thesis
    by simp
qed

text \<open>The use in \<^verbatim>\<open>get_receipt\<close>: when the first request fails in the transport, the
  handler builds the exception from a sentence as its code, and the caller gets the
  \<^verbatim>\<open>ValueError\<close>.\<close>

lemma get_receipt_request_failure:
  assumes "net (GET (url_export_data @ ''html?receiptId='' @ r) listing_params) = Inl (RequestError t)"
  shows "fst (get_receipt net ReceiptItem r tr) = Inl (int_error (''Failed to retrieve receipt '' @ r))"
proof -
  have "py_int (str_pyobj (PyStr (''Failed to retrieve receipt '' @ r))) = None"
    by (simp add: py_int_letter is_int_space_def is_decimal_def)
  from init_not_convertible(3) [OF this]
  have "raise_ExceptionMigrosApi (Some (PyStr (''Failed to retrieve receipt '' @ r))) None
          = int_error (''Failed to retrieve receipt '' @ r)"
    by simp
  then show ?thesis
    using assms
    by (simp add: get_receipt_def Let_def session_request_def then_do_def except_def)
qed

section \<open>Validation of the date range\<close>

lemma raise_catalog_4:
  "raise_ExceptionMigrosApi (Some (PyInt 4)) None = MigrosApiError (Some ''4'') (dict_get ERROR_CODES (PyInt 4))"
  by (simp add: raise_ExceptionMigrosApi_def ExceptionMigrosApi_init_def ERROR_CODES_def dict_get_def str_int_def)

lemma raise_catalog_5:
  "raise_ExceptionMigrosApi (Some (PyInt 5)) None = MigrosApiError (Some ''5'') (dict_get ERROR_CODES (PyInt 5))"
  by (simp add: raise_ExceptionMigrosApi_def ExceptionMigrosApi_init_def ERROR_CODES_def dict_get_def str_int_def)

text \<open>
  C2. When \<open>period_from\<close> or \<open>period_to\<close> is not a \<^verbatim>\<open>datetime\<close>,
  \<^verbatim>\<open>get_all_receipts\<close> raises the exception with code 4 and the message the catalog
  has for 4; when both are and \<open>period_from > period_to\<close>, it raises the one with code 5.
  In both cases the trace of the session is the one it started with: no request was sent.
\<close>

theorem invalid_dates_rejected:
  "((\<exists>x. period_from = NotDatetime x) \<or> (\<exists>x. period_to = NotDatetime x) \<longrightarrow>
      get_all_receipts net bs period_from period_to tr
        = Some (Inl (MigrosApiError (Some ''4'') (dict_get ERROR_CODES (PyInt 4))), tr))
   \<and> (datetime_gt f t \<longrightarrow>
      get_all_receipts net bs (Datetime f) (Datetime t) tr
        = Some (Inl (MigrosApiError (Some ''5'') (dict_get ERROR_CODES (PyInt 5))), tr))"
  by (auto simp: get_all_receipts_def validate_dates_def raise_catalog_4 raise_catalog_5
      split: pyarg.splits)

theorem invalid_dates_rejected_witness:
  "get_all_receipts two_page_net example_bs (NotDatetime (PyStr ''2024-01-01'')) (Datetime jan_31) []
     = Some (Inl (MigrosApiError (Some ''4'')
                   (Some ''period_from and period_to should be datetime objects'')), [])
   \<and> datetime_gt jan_31 jan_01
   \<and> get_all_receipts two_page_net example_bs (Datetime jan_31) (Datetime jan_01) []
     = Some (Inl (MigrosApiError (Some ''5'') (Some ''`period_from` should be <= to `period_to`'')), [])"
proof -
  have g: "datetime_gt jan_31 jan_01"
    by code_simp
  have c4: "dict_get ERROR_CODES (PyInt 4) = Some ''period_from and period_to should be datetime objects''"
    by (simp add: dict_get_def ERROR_CODES_def)
  have c5: "dict_get ERROR_CODES (PyInt 5) = Some ''`period_from` should be <= to `period_to`''"
    by (simp add: dict_get_def ERROR_CODES_def)
  from invalid_dates_rejected [where period_from = "NotDatetime (PyStr ''2024-01-01'')"
      and period_to = "Datetime jan_31" and net = two_page_net and bs = example_bs
      and tr = "[]" and f = jan_31 and t = jan_01] g c4 c5
  show ?thesis by simp
qed

section \<open>The login page without token\<close>

lemma no_marker_no_token: "\<not> contains body csrf_marker \<Longrightarrow> csrf_search body = None"
  by (induction body) auto

lemma raise_for_status_ok:
  "status_code r < 400 \<or> 600 \<le> status_code r \<Longrightarrow> raise_for_status r tr = (Inr (), tr)"
  by (auto simp: raise_for_status_def)

lemma raise_for_status_error:
  "400 \<le> status_code r \<and> status_code r < 600 \<Longrightarrow>
     \<exists>m. raise_for_status r tr = (Inl (RequestException m), tr)"
  by (auto simp: raise_for_status_def)

lemma token_less_ok_status:
  assumes "net (GET login_url []) = Inr response"
    and "csrf_search (content response) = None"
    and "status_code response < 400 \<or> 600 \<le> status_code response"
  shows "authenticate net bs user pw tr =
           (Inl (MigrosApiError (Some ''1'') (Some ''CSRF token not found'')),
            tr @ [Request (GET login_url []), Sleep 1])"
  using assms(1,2) raise_for_status_ok [OF assms(3)]
  by (simp add: authenticate_def session_request_def then_do_def except_def
      sleep_def str_int_def)

lemma token_less_error_status:
  assumes "net (GET login_url []) = Inr response"
    and "400 \<le> status_code response \<and> status_code response < 600"
  shows "\<exists>m. authenticate net bs user pw tr =
           (Inl (MigrosApiError (Some ''1'') (Some (''Network error during authentication: '' @ m))),
            tr @ [Request (GET login_url [])])"
proof -
  from raise_for_status_error [OF assms(2)] obtain m
    where "raise_for_status response (tr @ [Request (GET login_url [])])
             = (Inl (RequestException m), tr @ [Request (GET login_url [])])"
    by blast
  with assms(1) show ?thesis
    by (simp add: authenticate_def session_request_def then_do_def except_def str_int_def)
qed

text \<open>
  C3, as amended. The login page was fetched and its body has no match of the token
  pattern. Whatever the status of the response, the authentication raises the client's
  exception with code 1, and the session has sent the request for the login page and
  nothing after it but at most one pause: no \<^verbatim>\<open>POST\<close>. When the status is no error
  status the message is \<^verbatim>\<open>CSRF token not found\<close>; when it is one (400 to 599), the
  status is checked first and the message is \<^verbatim>\<open>Network error during authentication: \<close>
  followed by the text of the HTTP error.
\<close>

theorem token_less_login_page_fails:
  assumes "net (GET login_url []) = Inr response"
    and "csrf_search (content response) = None"
  shows "(\<exists>m. fst (authenticate net bs user pw tr) = Inl (MigrosApiError (Some ''1'') (Some m)))
       \<and> (\<exists>k. snd (authenticate net bs user pw tr)
                = tr @ take k [Request (GET login_url []), Sleep 1])
       \<and> (status_code response < 400 \<or> 600 \<le> status_code response \<longrightarrow>
            authenticate net bs user pw tr =
              (Inl (MigrosApiError (Some ''1'') (Some ''CSRF token not found'')),
               tr @ [Request (GET login_url []), Sleep 1]))
       \<and> (400 \<le> status_code response \<and> status_code response < 600 \<longrightarrow>
            (\<exists>m. authenticate net bs user pw tr =
              (Inl (MigrosApiError (Some ''1'')
                     (Some (''Network error during authentication: '' @ m))),
               tr @ [Request (GET login_url [])])))"
proof (cases "status_code response < 400 \<or> 600 \<le> status_code response")
  case True
  from token_less_ok_status [where net = net and response = response, OF assms True]
  have a: "authenticate net bs user pw tr =
           (Inl (MigrosApiError (Some ''1'') (Some ''CSRF token not found'')),
            tr @ [Request (GET login_url []), Sleep 1])" .
  then have "snd (authenticate net bs user pw tr)
               = tr @ take 2 [Request (GET login_url []), Sleep 1]"
    by simp
  then have "\<exists>k. snd (authenticate net bs user pw tr)
                = tr @ take k [Request (GET login_url []), Sleep 1]"
    by blast
  with a True show ?thesis by auto
next
  case False
  then have err: "400 \<le> status_code response \<and> status_code response < 600" by auto
  from token_less_error_status [where net = net and response = response, OF assms(1) err]
  obtain m
    where a: "authenticate net bs user pw tr =
           (Inl (MigrosApiError (Some ''1'') (Some (''Network error during authentication: '' @ m))),
            tr @ [Request (GET login_url [])])"
    by blast
  then have "snd (authenticate net bs user pw tr)
               = tr @ take 1 [Request (GET login_url []), Sleep 1]"
    by simp
  then have "\<exists>k. snd (authenticate net bs user pw tr)
                = tr @ take k [Request (GET login_url []), Sleep 1]"
    by blast
  with a False show ?thesis by auto
qed

theorem token_less_login_page_fails_witness:
  "csrf_search (content (ok_response [] ''<html>maintenance</html>'')) = None
   \<and> authenticate (fixed_net ''<html>maintenance</html>'') example_bs ''user@example.org'' ''secret'' []
       = (Inl (MigrosApiError (Some ''1'') (Some ''CSRF token not found'')),
          [Request (GET login_url []), Sleep 1])
   \<and> csrf_search (content not_found_response) = None
   \<and> (\<exists>m. authenticate not_found_net example_bs ''user@example.org'' ''secret'' []
       = (Inl (MigrosApiError (Some ''1'') (Some (''Network error during authentication: '' @ m))),
          [Request (GET login_url [])]))"
proof -
  have a: "fixed_net ''<html>maintenance</html>'' (GET login_url [])
             = Inr (ok_response [] ''<html>maintenance</html>'')"
    by (simp add: fixed_net_def)
  have b: "status_code (ok_response [] ''<html>maintenance</html>'') < 400
           \<or> 600 \<le> status_code (ok_response [] ''<html>maintenance</html>'')"
    by (simp add: ok_response_def)
  have c: "csrf_search (content (ok_response [] ''<html>maintenance</html>'')) = None"
    by (simp add: ok_response_def csrf_marker_def)
  have a': "not_found_net (GET login_url []) = Inr not_found_response"
    by (simp add: not_found_net_def)
  have b': "400 \<le> status_code not_found_response \<and> status_code not_found_response < 600"
    by (simp add: not_found_response_def)
  have c': "csrf_search (content not_found_response) = None"
    by (simp add: not_found_response_def csrf_marker_def)
  from token_less_login_page_fails [where net = "fixed_net ''<html>maintenance</html>''"
      and response = "ok_response [] ''<html>maintenance</html>''" and bs = example_bs
      and user = "''user@example.org''" and pw = "''secret''" and tr = "[]", OF a c] b
  have first: "authenticate (fixed_net ''<html>maintenance</html>'') example_bs
                 ''user@example.org'' ''secret'' []
       = (Inl (MigrosApiError (Some ''1'') (Some ''CSRF token not found'')),
          [Request (GET login_url []), Sleep 1])"
    by simp
  from token_less_login_page_fails [where net = not_found_net
      and response = not_found_response and bs = example_bs
      and user = "''user@example.org''" and pw = "''secret''" and tr = "[]", OF a' c'] b'
  have "\<exists>m. authenticate not_found_net example_bs ''user@example.org'' ''secret'' []
       = (Inl (MigrosApiError (Some ''1'') (Some (''Network error during authentication: '' @ m))),
          [Request (GET login_url [])])"
    by simp
  with first c c' show ?thesis by blast
qed

text \<open>A login page without token that comes with status 404: the message is the one of
  the network error, and the session has not paused.\<close>

theorem token_less_error_page:
  "not_found_net (GET login_url []) = Inr not_found_response
   \<and> csrf_search (content not_found_response) = None
   \<and> authenticate not_found_net example_bs ''user@example.org'' ''secret'' []
       = (Inl (MigrosApiError (Some ''1'')
                (Some ''Network error during authentication: 404 Client Error: Not Found for url: https://login.migros.ch/login'')),
          [Request (GET login_url [])])"
  by code_simp

section \<open>Extraction of a page\<close>

lemma total_pages_of_max:
  "total_pages_of pages = (if pages = [] then 1 else Max (set pages))"
proof (cases pages)
  case Nil
  then show ?thesis by (simp add: total_pages_of_def)
next
  case (Cons x xs)
  then show ?thesis
    using Max.set_eq_fold [of x xs] by (simp add: total_pages_of_def max_list_def)
qed

lemma decimal_not_int_space: "is_decimal c \<Longrightarrow> \<not> is_int_space c"
  by (auto simp: is_decimal_def is_int_space_def)

lemma decimal_not_sign: "is_decimal c \<Longrightarrow> c \<noteq> CHR ''-'' \<and> c \<noteq> CHR ''+''"
  by (auto simp: is_decimal_def)

lemma dropWhile_decimal:
  "list_all is_decimal t \<Longrightarrow> dropWhile is_int_space t = t"
  by (cases t) (auto simp: decimal_not_int_space)

lemma strip_decimal:
  assumes "list_all is_decimal s"
  shows "strip_with is_int_space s = s"
proof -
  from assms have "list_all is_decimal (rev s)" by (simp add: list_all_iff)
  with assms show ?thesis
    by (simp add: strip_with_def dropWhile_decimal)
qed

lemma parse_digits_decimal:
  "list_all is_decimal cs \<Longrightarrow> \<exists>v. parse_digits acc cs = Some v"
  by (induction acc cs rule: parse_digits.induct) auto

lemma py_int_decimal:
  assumes "s \<noteq> []" "list_all is_decimal s"
  shows "\<exists>v. py_int s = Some v"
proof -
  from assms obtain c cs where s: "s = c # cs" by (cases s) auto
  with assms(2) have c: "is_decimal c" and cs: "list_all is_decimal cs" by auto
  from parse_digits_decimal [OF cs] obtain v where "parse_digits (digit_value c) cs = Some v"
    by blast
  with s c decimal_not_sign [OF c] strip_decimal [OF assms(2)] show ?thesis
    by (simp add: py_int_def parse_unsigned_def)
qed

lemma collect_pages_returns:
  assumes "\<forall>item \<in> set items. \<forall>s. get (fst item) ''data-value'' = Some s \<longrightarrow> isnumeric s
             \<longrightarrow> list_all is_decimal s"
  shows "\<exists>pages. collect_pages items acc = Inr pages"
  using assms
proof (induction items arbitrary: acc)
  case Nil
  then show ?case by simp
next
  case (Cons item items)
  show ?case
  proof (cases "get (fst item) ''data-value''")
    case None
    with Cons show ?thesis by simp
  next
    case (Some s)
    show ?thesis
    proof (cases "isnumeric s")
      case True
      with Some Cons.prems have "list_all is_decimal s" by simp
      moreover from True have "s \<noteq> []" by (simp add: isnumeric_def)
      ultimately obtain v where "py_int s = Some v" using py_int_decimal by blast
      with Some True Cons show ?thesis by simp
    next
      case False
      with Some Cons show ?thesis by simp
    qed
  qed
qed

lemma collect_pages_values:
  assumes "collect_pages items acc = Inr pages"
  shows "set pages = set acc \<union> {v. \<exists>item \<in> set items. \<exists>s. get (fst item) ''data-value'' = Some s
                                   \<and> isnumeric s \<and> py_int s = Some v}"
  using assms
proof (induction items arbitrary: acc)
  case Nil
  then show ?case by simp
next
  case (Cons item items)
  show ?case
  proof (cases "get (fst item) ''data-value''")
    case None
    with Cons.prems have "collect_pages items acc = Inr pages" by simp
    from Cons.IH [OF this] None show ?thesis by auto
  next
    case (Some s)
    show ?thesis
    proof (cases "isnumeric s")
      case False
      with Some Cons.prems have "collect_pages items acc = Inr pages" by simp
      from Cons.IH [OF this] Some False show ?thesis by auto
    next
      case True
      then have ne: "s \<noteq> []" by (simp add: isnumeric_def)
      with Some True Cons.prems obtain v where v: "py_int s = Some v"
        and "collect_pages items (acc @ [v]) = Inr pages"
        by (auto split: option.splits)
      from Cons.IH [OF this(2)] Some True v show ?thesis by auto
    qed
  qed
qed

text \<open>When every pagination value that passes \<^verbatim>\<open>isnumeric\<close> is made of decimal digits,
  the pagination loop returns, the values it has collected are the numbers of these
  values, and the page count is their maximum, or 1 when there is none.\<close>

lemma page_count_is_maximum:
  assumes "\<forall>item \<in> set (find_all pagination_link doc).
             \<forall>s. get (fst item) ''data-value'' = Some s \<longrightarrow> isnumeric s \<longrightarrow> list_all is_decimal s"
  shows "\<exists>pages. collect_pages (find_all pagination_link doc) [] = Inr pages
           \<and> set pages = {v. \<exists>item \<in> set (find_all pagination_link doc). \<exists>s.
                             get (fst item) ''data-value'' = Some s \<and> isnumeric s \<and> py_int s = Some v}
           \<and> total_pages_of pages = (if pages = [] then 1 else Max (set pages))"
proof -
  from collect_pages_returns [OF assms] obtain pages
    where p: "collect_pages (find_all pagination_link doc) [] = Inr pages" by blast
  from collect_pages_values [OF p] p total_pages_of_max show ?thesis by auto
qed

text \<open>Every key of the dictionary was there before or is the \<^verbatim>\<open>value\<close> attribute of a
  selector of the page; and a selector after which the document has no detail link at all
  is skipped.\<close>

lemma parse_items_keys:
  assumes "parse_items items d = Inr d'"
  shows "fst ` set d' \<subseteq> fst ` set d \<union> (\<lambda>item. get (fst item) ''value'') ` set items"
  using assms
proof (induction items arbitrary: d)
  case Nil
  then show ?case by auto
next
  case (Cons item items)
  from Cons.prems consider "parse_items items d = Inr d'"
    | r where "parse_items items (AList.update (get (fst item) ''value'') r d) = Inr d'"
    by (auto simp: Let_def split: if_splits option.splits)
  then show ?case
  proof cases
    case 1
    from Cons.IH [OF this] show ?thesis by auto
  next
    case 2
    from Cons.IH [OF this] show ?thesis by (auto simp: dom_update)
  qed
qed

lemma parse_items_no_link_after:
  assumes "find_next toggle_modal_link item = None"
  shows "parse_items (item # items) d = parse_items items d"
  using assms by simp

section \<open>Extraction on irregular pages\<close>

text \<open>
  C4. A pagination link whose \<^verbatim>\<open>data-value\<close> is the superscript two: the value passes
  \<^verbatim>\<open>isnumeric\<close>, \<^verbatim>\<open>int\<close> rejects it, and the extraction of the page raises instead
  of reporting a page count.
\<close>

theorem superscript_page_value_raises:
  "get (page_link [CHR 0xB2]) ''data-value'' = Some [CHR 0xB2]
   \<and> isnumeric [CHR 0xB2]
   \<and> py_int [CHR 0xB2] = None
   \<and> parse_receipt_data example_bs (ok_response [] ''superscript'') []
       = Inl (PyException (''Failed to parse receipt data: invalid literal for int() with base 10: ''
                @ repr_str [CHR 0xB2]))"
  by code_simp

lemma pagination_with_gaps:
  "parse_receipt_data example_bs (ok_response [] ''gaps'') [] = Inr (5, [])"
  by code_simp

text \<open>
  C5. Two pages of two rows each. On the first, row \<open>A\<close> has no detail link; on the
  second, row \<open>A\<close> has a link and only two data cells. In both the extraction stores a
  record under \<open>A\<close>: \<^verbatim>\<open>find_next\<close> goes on into row \<open>B\<close> and takes the link, or the
  third cell, from there.
\<close>

theorem row_without_link_takes_next_row:
  "parse_receipt_data example_bs (ok_response [] ''row without link'') []
     = Inr (1, [(Some ''A'',
                 \<lparr>pdf_ref = ''/export/html?receiptId=R2'', receipt_id = ''R2'',
                  store_name = ''Migros Chur'', cost = ''9.90'', cumulus_points = ''9''\<rparr>),
                (Some ''B'',
                 \<lparr>pdf_ref = ''/export/html?receiptId=R2'', receipt_id = ''R2'',
                  store_name = ''Migros Chur'', cost = ''9.90'', cumulus_points = ''9''\<rparr>)])
   \<and> parse_receipt_data example_bs (ok_response [] ''row without points'') []
     = Inr (1, [(Some ''A'',
                 \<lparr>pdf_ref = ''/export/html?receiptId=R1'', receipt_id = ''R1'',
                  store_name = ''Migros Olten'', cost = ''4.00'', cumulus_points = []\<rparr>),
                (Some ''B'',
                 \<lparr>pdf_ref = ''/export/html?receiptId=R2'', receipt_id = ''R2'',
                  store_name = ''Migros Chur'', cost = ''9.90'', cumulus_points = ''9''\<rparr>)])"
  by code_simp

text \<open>
  C6. The row of selector \<open>A\<close> contains no detail link, and the mapping returned by
  \<^verbatim>\<open>get_all_receipts\<close> has under \<open>A\<close> a record whose receipt id is \<open>R2\<close>, from the
  link of row \<open>B\<close>.
\<close>

theorem receipt_id_of_other_row:
  "find_all toggle_modal_link (descendants (Tag ''tr'' [] [] [checkbox_cell ''A'', td ''pending''])) = []
   \<and> get_all_receipts (fixed_net ''row without link'') example_bs (Datetime jan_01) (Datetime jan_31) []
     = Some (Inr [(Some ''A'',
                 \<lparr>pdf_ref = ''/export/html?receiptId=R2'', receipt_id = ''R2'',
                  store_name = ''Migros Chur'', cost = ''9.90'', cumulus_points = ''9''\<rparr>),
                (Some ''B'',
                 \<lparr>pdf_ref = ''/export/html?receiptId=R2'', receipt_id = ''R2'',
                  store_name = ''Migros Chur'', cost = ''9.90'', cumulus_points = ''9''\<rparr>)],
             [Request (listing_request january 1)])"
  by code_simp

section \<open>The pagination loop\<close>

lemma parse_items_failure_any_dict:
  "parse_items items d = Inl e \<Longrightarrow> parse_items items d' = Inl e"
  by (induction items arbitrary: d d')
     (auto simp: Let_def split: if_splits option.splits)

lemma parse_items_success_any_dict:
  "parse_items items d = Inr r \<Longrightarrow> \<exists>r'. parse_items items d' = Inr r'"
  using parse_items_failure_any_dict [of items d']
  by (cases "parse_items items d'") auto

lemma parse_receipt_data_count_any_dict:
  assumes "parse_receipt_data bs response d = Inr (c, r)"
  shows "\<exists>r'. parse_receipt_data bs response d' = Inr (c, r')"
  using assms parse_items_success_any_dict [where d' = d']
  unfolding parse_receipt_data_def
  by (fastforce split: sum.splits)


lemma page_count_parse:
  assumes "page_count net bs request_url p = Some c"
  shows "\<exists>response d'. net (listing_request request_url p) = Inr response
           \<and> parse_receipt_data bs response d = Inr (c, d')"
proof -
  from assms obtain response r where n: "net (listing_request request_url p) = Inr response"
    and "parse_receipt_data bs response [] = Inr (c, r)"
    by (auto simp: page_count_def split: sum.splits)
  then show ?thesis
    using parse_receipt_data_count_any_dict [of bs response "[]" c r d] by auto
qed

lemma fetch_pages_returns:
  assumes "\<forall>i<n. \<exists>c. page_count net bs request_url (p + int i) = Some c
             \<and> (if Suc i = n then c \<le> p + int i else p + int i < c)"
    and "0 < n"
  shows "fetch_pages net bs request_url p d tr
           = Some (Inr (merge_pages net bs request_url p n d), tr @ page_trail request_url p n)"
  using assms
proof (induction n arbitrary: p d tr)
  case 0
  then show ?case by simp
next
  case (Suc n)
  have "0 < Suc n" by simp
  with Suc.prems(1)
  have "\<exists>c. page_count net bs request_url (p + int 0) = Some c
             \<and> (if Suc 0 = Suc n then c \<le> p + int 0 else p + int 0 < c)"
    by blast
  then obtain c where c: "page_count net bs request_url p = Some c"
    and bound: "if n = 0 then c \<le> p else p < c"
    by (auto split: if_splits)
  from page_count_parse [OF c, of d] obtain response d'
    where net: "net (listing_request request_url p) = Inr response"
      and parse: "parse_receipt_data bs response d = Inr (c, d')"
    by blast
  show ?case
  proof (cases "n = 0")
    case True
    with bound net parse show ?thesis
      by (subst fetch_pages.simps) (simp add: session_request_def)
  next
    case False
    have rest: "\<forall>i<n. \<exists>c. page_count net bs request_url (p + 1 + int i) = Some c
             \<and> (if Suc i = n then c \<le> p + 1 + int i else p + 1 + int i < c)"
    proof (intro allI impI)
      fix i assume "i < n"
      then have "Suc i < Suc n" by simp
      with Suc.prems(1) obtain c' where "page_count net bs request_url (p + int (Suc i)) = Some c'"
        and "if Suc (Suc i) = Suc n then c' \<le> p + int (Suc i) else p + int (Suc i) < c'"
        by blast
      then show "\<exists>c. page_count net bs request_url (p + 1 + int i) = Some c
             \<and> (if Suc i = n then c \<le> p + 1 + int i else p + 1 + int i < c)"
        by (auto simp: algebra_simps)
    qed
    from False have "0 < n" by simp
    from Suc.IH [OF rest this]
    have "fetch_pages net bs request_url (p + 1) d' (sleep 1 (tr @ [Request (listing_request request_url p)]))
            = Some (Inr (merge_pages net bs request_url (p + 1) n d'),
                    sleep 1 (tr @ [Request (listing_request request_url p)]) @ page_trail request_url (p + 1) n)" .
    with False bound net parse show ?thesis
      by (subst fetch_pages.simps) (simp add: session_request_def sleep_def)
  qed
qed

lemma fetch_pages_trail:
  assumes "fetch_pages net bs request_url p d tr = Some y"
  shows "\<exists>n. snd y = tr @ page_trail request_url p (Suc n)"
  using assms
proof (induct rule: fetch_pages.raw_induct)
  case (1 f net bs request_url current_page final_dict tr y)
  show ?case
  proof (cases "net (listing_request request_url current_page)")
    case (Inl f)
    with 1(2) have "snd y = tr @ page_trail request_url current_page (Suc 0)"
      by (auto simp: session_request_def)
    then show ?thesis by blast
  next
    case (Inr response)
    show ?thesis
    proof (cases "parse_receipt_data bs response final_dict")
      case (Inl e)
      with Inr 1(2) have "snd y = tr @ page_trail request_url current_page (Suc 0)"
        by (auto simp: session_request_def)
      then show ?thesis by blast
    next
      case parsed: (Inr r)
      obtain total d' where r: "r = (total, d')" by (cases r)
      show ?thesis
      proof (cases "total \<le> current_page")
        case True
        with Inr parsed r 1(2) have "snd y = tr @ page_trail request_url current_page (Suc 0)"
          by (auto simp: session_request_def)
        then show ?thesis by blast
      next
        case False
        with Inr parsed r 1(2)
        have "f net bs request_url (current_page + 1) d'
                (sleep 1 (tr @ [Request (listing_request request_url current_page)])) = Some y"
          by (auto simp: session_request_def)
        moreover from False Inr parsed r 1(3)
        have "fetch_pages net bs request_url (current_page + 1) d'
                (sleep 1 (tr @ [Request (listing_request request_url current_page)])) = Some y"
          by (subst (asm) fetch_pages.simps) (auto simp: session_request_def)
        ultimately obtain n
          where "snd y = sleep 1 (tr @ [Request (listing_request request_url current_page)])
                   @ page_trail request_url (current_page + 1) (Suc n)"
          using 1(1) by blast
        then have "snd y = tr @ page_trail request_url current_page (Suc (Suc n))"
          by (simp add: sleep_def)
        then show ?thesis by blast
      qed
    qed
  qed
qed (rule assms)

lemma gaps_from_page_trail:
  "list_all (\<lambda>g. g = 1) (gaps_from (Some 1) (page_trail request_url p n))"
  by (induction n arbitrary: p) auto

lemma gaps_page_trail: "list_all (\<lambda>g. g = 1) (gaps (page_trail request_url p n))"
proof (cases n)
  case 0
  then show ?thesis by (simp add: gaps_def)
next
  case (Suc m)
  then show ?thesis
    using gaps_from_page_trail [of request_url "p + 1" m]
    by (auto simp: gaps_def)
qed

text \<open>When every page from \<open>p\<close> on reports a count above its own cursor, the loop does
  not return.\<close>

lemma fetch_pages_endless:
  assumes "fetch_pages net bs request_url p d tr = Some y"
    and "\<forall>q\<ge>p. \<exists>c. page_count net bs request_url q = Some c \<and> q < c"
  shows False
  using assms
proof (induct rule: fetch_pages.raw_induct)
  case (1 f net bs request_url current_page final_dict tr y)
  from 1(4) obtain c where c: "page_count net bs request_url current_page = Some c"
    and less: "current_page < c"
    by auto
  from page_count_parse [OF c, of final_dict] obtain response d'
    where net: "net (listing_request request_url current_page) = Inr response"
      and parse: "parse_receipt_data bs response final_dict = Inr (c, d')"
    by blast
  from 1(2) net parse less
  have a: "f net bs request_url (current_page + 1) d'
          (sleep 1 (tr @ [Request (listing_request request_url current_page)])) = Some y"
    by (auto simp: session_request_def)
  from 1(3) net parse less
  have b: "fetch_pages net bs request_url (current_page + 1) d'
          (sleep 1 (tr @ [Request (listing_request request_url current_page)])) = Some y"
    by (subst (asm) fetch_pages.simps) (auto simp: session_request_def)
  from 1(4) have "\<forall>q\<ge>current_page + 1. \<exists>c. page_count net bs request_url q = Some c \<and> q < c"
    by auto
  with 1(1) a b show ?case by blast
qed (rule assms)+

lemma fetch_pages_errors:
  assumes "fetch_pages net bs request_url p d tr = Some (Inl e, tr')"
  shows "(\<exists>m. e = RequestException m) \<or> (\<exists>m. e = OtherError m) \<or> (\<exists>m. e = PyException m)"
proof -
  have "\<exists>m. e = RequestException m \<or> e = OtherError m \<or> e = PyException m"
    if "fst y = Inl e" "fetch_pages net bs request_url p d tr = Some y" for y
    using that(2) that(1)
  proof (induct rule: fetch_pages.raw_induct)
    case (1 f net bs request_url current_page final_dict tr y)
    show ?case
    proof (cases "net (listing_request request_url current_page)")
      case (Inl te)
      with 1(2) 1(4) show ?thesis
        by (cases te) (auto simp: session_request_def)
    next
      case (Inr response)
      show ?thesis
      proof (cases "parse_receipt_data bs response final_dict")
        case (Inl pe)
        with Inr 1(2) 1(4) show ?thesis
          by (auto simp: session_request_def parse_receipt_data_def split: sum.splits)
      next
        case parsed: (Inr r)
        obtain total d' where r: "r = (total, d')" by (cases r)
        show ?thesis
        proof (cases "total \<le> current_page")
          case True
          with Inr parsed r 1(2) 1(4) show ?thesis
            by (auto simp: session_request_def)
        next
          case False
          with Inr parsed r 1(2)
          have a: "f net bs request_url (current_page + 1) d'
                (sleep 1 (tr @ [Request (listing_request request_url current_page)])) = Some y"
            by (auto simp: session_request_def)
          from False Inr parsed r 1(3)
          have b: "fetch_pages net bs request_url (current_page + 1) d'
                (sleep 1 (tr @ [Request (listing_request request_url current_page)])) = Some y"
            by (subst (asm) fetch_pages.simps) (auto simp: session_request_def)
          from 1(1) [OF a b 1(4)] show ?thesis .
        qed
      qed
    qed
  qed (rule that)+
  from this [of "(Inl e, tr')"] assms show ?thesis by auto
qed

text \<open>
  C1, as amended. The dates are in order, and \<open>n\<close> is the first cursor that reaches the
  page count of its own page: every page \<open>p < n\<close> reports a count above \<open>p\<close>, page \<open>n\<close>
  reports a count of at most \<open>n\<close>. Then \<^verbatim>\<open>get_all_receipts\<close> returns, its requests are
  those for the pages \<open>1, ..., n\<close> in this order, with a pause of one between two of
  them, and the mapping is the one accumulated over these pages. The bound is read again
  from every page, not kept from the first.
\<close>

theorem listing_stops_at_first_reached_count:
  assumes "\<not> datetime_gt f t"
    and "0 < n"
    and "\<forall>i<n. \<exists>c. page_count net bs (url_receipts (format_date f) (format_date t)) (1 + int i) = Some c
             \<and> (if Suc i = n then c \<le> 1 + int i else 1 + int i < c)"
  shows "get_all_receipts net bs (Datetime f) (Datetime t) tr
           = Some (Inr (merge_pages net bs (url_receipts (format_date f) (format_date t)) 1 n []),
                   tr @ page_trail (url_receipts (format_date f) (format_date t)) 1 n)"
  using assms(1) fetch_pages_returns [OF assms(3) assms(2), of "[]" tr]
  by (simp add: get_all_receipts_def validate_dates_def except_def)

lemma january_url: "url_receipts (format_date jan_01) (format_date jan_31) = january"
  by code_simp

lemma two_page_counts:
  "page_count two_page_net example_bs january 1 = Some 2"
  "page_count two_page_net example_bs january 2 = Some 2"
  by code_simp+

lemma two_page_merge:
  "merge_pages two_page_net example_bs january 1 2 [] =
     [(Some ''d1'',
       \<lparr>pdf_ref = ''/export/html?receiptId=r1'', receipt_id = ''r1'',
        store_name = ''Migros Bern'', cost = ''12.50'', cumulus_points = ''12''\<rparr>),
      (Some ''d2'',
       \<lparr>pdf_ref = ''/export/html?receiptId=r2'', receipt_id = ''r2'',
        store_name = ''Migros Thun'', cost = ''7.90'', cumulus_points = ''7''\<rparr>),
      (Some ''d3'',
       \<lparr>pdf_ref = ''/export/html?receiptId=r3'', receipt_id = ''r3'',
        store_name = ''Migros Biel'', cost = ''3.20'', cumulus_points = ''3''\<rparr>)]"
  by code_simp

theorem listing_stops_at_first_reached_count_witness:
  "\<not> datetime_gt jan_01 jan_31
   \<and> page_count two_page_net example_bs january 1 = Some 2
   \<and> page_count two_page_net example_bs january 2 = Some 2
   \<and> get_all_receipts two_page_net example_bs (Datetime jan_01) (Datetime jan_31) []
       = Some (Inr [(Some ''d1'',
                     \<lparr>pdf_ref = ''/export/html?receiptId=r1'', receipt_id = ''r1'',
                      store_name = ''Migros Bern'', cost = ''12.50'', cumulus_points = ''12''\<rparr>),
                    (Some ''d2'',
                     \<lparr>pdf_ref = ''/export/html?receiptId=r2'', receipt_id = ''r2'',
                      store_name = ''Migros Thun'', cost = ''7.90'', cumulus_points = ''7''\<rparr>),
                    (Some ''d3'',
                     \<lparr>pdf_ref = ''/export/html?receiptId=r3'', receipt_id = ''r3'',
                      store_name = ''Migros Biel'', cost = ''3.20'', cumulus_points = ''3''\<rparr>)],
               [Request (listing_request january 1), Sleep 1, Request (listing_request january 2)])"
proof -
  have a: "\<not> datetime_gt jan_01 jan_31" by code_simp
  have b: "(0::nat) < 2" by simp
  have c: "\<forall>i<2. \<exists>c. page_count two_page_net example_bs
                 (url_receipts (format_date jan_01) (format_date jan_31)) (1 + int i) = Some c
             \<and> (if Suc i = 2 then c \<le> 1 + int i else 1 + int i < c)"
    by (simp add: january_url two_page_counts less_Suc_eq numeral_2_eq_2)
  have d: "page_trail january 1 2
             = [Request (listing_request january 1), Sleep 1, Request (listing_request january 2)]"
    by (simp add: numeral_2_eq_2)
  from listing_stops_at_first_reached_count [OF a b c, of "[]"] a two_page_counts two_page_merge d
  show ?thesis by (simp add: january_url)
qed

text \<open>The first page reports two pages, the second reports three: three requests are
  sent.\<close>

theorem later_page_moves_bound:
  "page_count growing_net example_bs january 1 = Some 2
   \<and> get_all_receipts growing_net example_bs (Datetime jan_01) (Datetime jan_31) []
       = Some (Inr [(Some ''d1'',
                     \<lparr>pdf_ref = ''/export/html?receiptId=r1'', receipt_id = ''r1'',
                      store_name = ''Migros Bern'', cost = ''12.50'', cumulus_points = ''12''\<rparr>),
                    (Some ''d2'',
                     \<lparr>pdf_ref = ''/export/html?receiptId=r2'', receipt_id = ''r2'',
                      store_name = ''Migros Thun'', cost = ''7.90'', cumulus_points = ''7''\<rparr>),
                    (Some ''d3'',
                     \<lparr>pdf_ref = ''/export/html?receiptId=r3'', receipt_id = ''r3'',
                      store_name = ''Migros Biel'', cost = ''3.20'', cumulus_points = ''3''\<rparr>)],
               [Request (listing_request january 1), Sleep 1, Request (listing_request january 2),
                Sleep 1, Request (listing_request january 3)])"
  by code_simp

section \<open>Login: errors and traces\<close>

lemma str_int_codes [simp]: "str_int 1 = ''1''" "str_int 3 = ''3''"
  by (simp_all add: str_int_def)

lemma authenticate_handler_wraps:
  "\<exists>c m. authenticate_handler e = MigrosApiError c (Some m) \<and> (e = MigrosApiError c (Some m) \<or> c = Some ''1'')"
  if "\<forall>c. e \<noteq> MigrosApiError c None"
  using that by (cases e) auto

lemma authenticate_handler_transport:
  "\<exists>m. authenticate_handler (raise_transport f) = MigrosApiError (Some ''1'') (Some m)"
  by (cases f) auto

lemma authenticate_errors:
  assumes "fst (authenticate net bs user pw tr) = Inl e"
  shows "\<exists>m. e = MigrosApiError (Some ''1'') (Some m)"
  using assms authenticate_handler_transport
  unfolding authenticate_def except_def then_do_def session_request_def raise_for_status_def Let_def
  by (auto split: sum.splits option.splits if_splits prod.splits)

lemma authenticate_trace:
  "snd (authenticate net bs user pw tr) = tr @ [Request (GET login_url [])]
   \<or> snd (authenticate net bs user pw tr) = tr @ [Request (GET login_url []), Sleep 1]
   \<or> (\<exists>token. snd (authenticate net bs user pw tr)
         = tr @ [Request (GET login_url []), Sleep 1, Sleep 2,
                 Request (POST login_url [(''_csrf'', token), (''username'', user),
                                          (''password'', pw), (''remember-me'', ''true'')])])"
  unfolding authenticate_def except_def then_do_def session_request_def raise_for_status_def Let_def sleep_def
  by (auto split: sum.splits option.splits if_splits prod.splits)

lemma authenticate_success_trace:
  assumes "fst (authenticate net bs user pw tr) = Inr u"
  shows "\<exists>token. snd (authenticate net bs user pw tr)
         = tr @ [Request (GET login_url []), Sleep 1, Sleep 2,
                 Request (POST login_url [(''_csrf'', token), (''username'', user),
                                          (''password'', pw), (''remember-me'', ''true'')])]"
  using assms
  unfolding authenticate_def except_def then_do_def session_request_def raise_for_status_def Let_def sleep_def
  by (auto split: sum.splits option.splits if_splits prod.splits)


lemma raise_transport_cases:
  "(\<exists>m. raise_transport f = RequestException m) \<or> (\<exists>m. raise_transport f = OtherError m)"
  by (cases f) auto

lemma login_cumulus_handler_transport:
  "\<exists>c. (\<exists>m. login_cumulus_handler (raise_transport f) = MigrosApiError (Some c) (Some m))
        \<and> (c = ''1'' \<or> c = ''3'')"
  by (cases f) auto

lemma login_cumulus_errors:
  assumes "fst (login_cumulus net bs user pw tr) = Inl e"
  shows "\<exists>c m. e = MigrosApiError (Some c) (Some m) \<and> (c = ''1'' \<or> c = ''3'')"
proof (cases "authenticate net bs user pw tr")
  case (Pair r tr1)
  show ?thesis
  proof (cases r)
    case (Inl e0)
    with Pair authenticate_errors [of net bs user pw tr e0]
    obtain m where "e0 = MigrosApiError (Some ''1'') (Some m)" by auto
    with Pair Inl assms show ?thesis
      by (auto simp: login_cumulus_def except_def then_do_def)
  next
    case (Inr u)
    with Pair assms login_cumulus_handler_transport show ?thesis
      unfolding login_cumulus_def except_def then_do_def session_request_def raise_for_status_def Let_def
      by (auto split: sum.splits option.splits if_splits prod.splits)
  qed
qed

lemma login_cumulus_trace:
  "(\<exists>e. fst (authenticate net bs user pw tr) = Inl e
        \<and> snd (login_cumulus net bs user pw tr) = snd (authenticate net bs user pw tr))
   \<or> (\<exists>u. fst (authenticate net bs user pw tr) = Inr u
        \<and> snd (login_cumulus net bs user pw tr)
            = snd (authenticate net bs user pw tr)
              @ [Request (GET cumulus_login
                   [(''referrer'', ''https://www.migros.ch/resources/loginPage~lang=de~.html''),
                    (''referrerPolicy'', ''no-referrer-when-downgrade'')])])"
proof (cases "authenticate net bs user pw tr")
  case (Pair r tr1)
  then show ?thesis
    unfolding login_cumulus_def except_def then_do_def session_request_def raise_for_status_def Let_def
    by (cases r) (auto split: sum.splits option.splits if_splits prod.splits)
qed

lemma init_session_trace:
  "(\<exists>e. init_session net tr = (Inl e, tr @ [Request (GET main_page [])]))
   \<or> init_session net tr = (Inr (), tr @ [Request (GET main_page []), Sleep 1])"
  unfolding init_session_def then_do_def session_request_def raise_for_status_def sleep_def
  by (auto split: sum.splits if_splits)

lemma login_trace:
  "\<exists>k token. snd (login_cumulus net bs user pw tr) = tr @ take k (tl (tl (login_trail user pw token)))"
proof -
  let ?A = "authenticate net bs user pw tr"
  let ?L = "\<lambda>token. tl (tl (login_trail user pw token))"
  have shapes: "(\<exists>token. snd ?A = tr @ take 1 (?L token)) \<or> (\<exists>token. snd ?A = tr @ take 2 (?L token))
        \<or> (\<exists>token. snd ?A = tr @ take 4 (?L token))"
    using authenticate_trace [of net bs user pw tr] by (auto simp: login_trail_def)
  from login_cumulus_trace [of net bs user pw tr]
  show ?thesis
  proof
    assume "\<exists>e. fst ?A = Inl e \<and> snd (login_cumulus net bs user pw tr) = snd ?A"
    with shapes show ?thesis by metis
  next
    assume "\<exists>u. fst ?A = Inr u \<and> snd (login_cumulus net bs user pw tr) = snd ?A
            @ [Request (GET cumulus_login
                   [(''referrer'', ''https://www.migros.ch/resources/loginPage~lang=de~.html''),
                    (''referrerPolicy'', ''no-referrer-when-downgrade'')])]"
    then obtain u where ok: "fst ?A = Inr u"
      and tr: "snd (login_cumulus net bs user pw tr) = snd ?A
            @ [Request (GET cumulus_login
                   [(''referrer'', ''https://www.migros.ch/resources/loginPage~lang=de~.html''),
                    (''referrerPolicy'', ''no-referrer-when-downgrade'')])]"
      by blast
    from authenticate_success_trace [OF ok] tr
    obtain token where "snd (login_cumulus net bs user pw tr) = tr @ take 5 (?L token)"
      by (auto simp: login_trail_def)
    then show ?thesis by blast
  qed
qed

lemma MigrosApi_init_trace:
  "\<exists>k token. snd (MigrosApi_init net bs pw user tr) = tr @ take k (login_trail user pw token)"
proof -
  from init_session_trace [of net tr] show ?thesis
  proof
    assume "\<exists>e. init_session net tr = (Inl e, tr @ [Request (GET main_page [])])"
    then have "snd (MigrosApi_init net bs pw user tr) = tr @ take 1 (login_trail user pw [])"
      by (auto simp: MigrosApi_init_def then_do_def login_trail_def)
    then show ?thesis by blast
  next
    assume ok: "init_session net tr = (Inr (), tr @ [Request (GET main_page []), Sleep 1])"
    obtain k token where
      "snd (login_cumulus net bs user pw (tr @ [Request (GET main_page []), Sleep 1]))
         = (tr @ [Request (GET main_page []), Sleep 1]) @ take k (tl (tl (login_trail user pw token)))"
      using login_trace by blast
    with ok have "snd (MigrosApi_init net bs pw user tr) = tr @ take (Suc (Suc k)) (login_trail user pw token)"
      by (auto simp: MigrosApi_init_def then_do_def login_trail_def split: sum.splits prod.splits)
    then show ?thesis by blast
  qed
qed

lemma gaps_login_trail: "gaps (login_trail user pw token) = [1, 3, 0]"
  by (simp add: gaps_def login_trail_def)

lemma MigrosApi_init_errors:
  assumes "fst (MigrosApi_init net bs pw user tr) = Inl e"
  shows "(\<exists>c m. e = MigrosApiError (Some c) (Some m) \<and> (c = ''1'' \<or> c = ''3''))
         \<or> (\<exists>m. e = RequestException m) \<or> (\<exists>m. e = OtherError m)"
proof -
  from init_session_trace [of net tr] show ?thesis
  proof
    assume "\<exists>e. init_session net tr = (Inl e, tr @ [Request (GET main_page [])])"
    then obtain e0 where e0: "init_session net tr = (Inl e0, tr @ [Request (GET main_page [])])"
      by blast
    then have "(\<exists>m. e0 = RequestException m) \<or> (\<exists>m. e0 = OtherError m)"
      using raise_transport_cases
      unfolding init_session_def then_do_def session_request_def raise_for_status_def sleep_def
      by (auto split: sum.splits if_splits)
    with e0 assms show ?thesis
      by (auto simp: MigrosApi_init_def then_do_def)
  next
    assume ok: "init_session net tr = (Inr (), tr @ [Request (GET main_page []), Sleep 1])"
    with assms have "fst (login_cumulus net bs user pw (tr @ [Request (GET main_page []), Sleep 1])) = Inl e"
      by (auto simp: MigrosApi_init_def then_do_def split: sum.splits prod.splits)
    from login_cumulus_errors [OF this] show ?thesis by blast
  qed
qed

section \<open>What a caller can observe\<close>

lemma get_all_receipts_handler_wraps:
  assumes "(\<exists>m. e = RequestException m) \<or> (\<exists>m. e = OtherError m) \<or> (\<exists>m. e = PyException m)"
  shows "\<exists>m. get_all_receipts_handler e = PyException (''Failed to get receipts: '' @ m)"
  using assms by auto

lemma get_all_receipts_errors:
  assumes "get_all_receipts net bs period_from period_to tr = Some (Inl e, tr')"
  shows "e = MigrosApiError (Some ''4'') (dict_get ERROR_CODES (PyInt 4))
       \<or> e = MigrosApiError (Some ''5'') (dict_get ERROR_CODES (PyInt 5))
       \<or> (\<exists>m. e = PyException (''Failed to get receipts: '' @ m))"
proof (cases "validate_dates period_from period_to")
  case (Inl v)
  then have "v = MigrosApiError (Some ''4'') (dict_get ERROR_CODES (PyInt 4))
           \<or> v = MigrosApiError (Some ''5'') (dict_get ERROR_CODES (PyInt 5))"
    by (auto simp: validate_dates_def raise_catalog_4 raise_catalog_5 split: pyarg.splits if_splits)
  with Inl assms show ?thesis
    by (auto simp: get_all_receipts_def)
next
  case (Inr ft)
  obtain f t where ft: "ft = (f, t)" by (cases ft)
  with Inr assms obtain y where run: "fetch_pages net bs (url_receipts (format_date f) (format_date t)) 1 [] tr = Some y"
    and y: "except y get_all_receipts_handler = (Inl e, tr')"
    by (auto simp: get_all_receipts_def)
  from y obtain e0 where e0: "y = (Inl e0, tr')" and e: "e = get_all_receipts_handler e0"
    by (cases y) (auto simp: except_def split: sum.splits)
  from fetch_pages_errors [OF run [unfolded e0]] get_all_receipts_handler_wraps [of e0] e
  show ?thesis by blast
qed

lemma get_all_receipts_trace:
  assumes "get_all_receipts net bs period_from period_to tr = Some (r, tr')"
  shows "\<exists>ext. tr' = tr @ ext \<and> list_all (\<lambda>g. g = 1) (gaps ext)"
proof (cases "validate_dates period_from period_to")
  case (Inl v)
  with assms have "tr' = tr @ []" by (auto simp: get_all_receipts_def)
  moreover have "list_all (\<lambda>g. g = 1) (gaps [])" by (simp add: gaps_def)
  ultimately show ?thesis by blast
next
  case (Inr ft)
  obtain f t where ft: "ft = (f, t)" by (cases ft)
  with Inr assms obtain y where run: "fetch_pages net bs (url_receipts (format_date f) (format_date t)) 1 [] tr = Some y"
    and y: "except y get_all_receipts_handler = (r, tr')"
    by (auto simp: get_all_receipts_def)
  from y have "snd y = tr'"
    by (cases y) (auto simp: except_def split: sum.splits)
  with fetch_pages_trail [OF run] obtain n
    where "tr' = tr @ page_trail (url_receipts (format_date f) (format_date t)) 1 (Suc n)"
    by auto
  with gaps_page_trail show ?thesis by blast
qed

text \<open>
  C9, as amended. Every run of the constructor leaves a trace that is an initial part of
  \<open>login_trail\<close>: warm-up request, pause of 1, request for the login page, pauses of 1 and
  2, credential \<^verbatim>\<open>POST\<close>, and then the request of the loyalty check with no pause before
  it. So the pauses between successive requests of the login sequence are 1, 3 and 0. In
  every run of \<^verbatim>\<open>get_all_receipts\<close> that returns or raises, the pause between two
  successive page requests is exactly 1.
\<close>

theorem pauses_between_requests:
  "(\<exists>k token. snd (MigrosApi_init net bs pw user tr) = tr @ take k (login_trail user pw token))
   \<and> gaps (login_trail user pw csrf_token) = [1, 3, 0]
   \<and> (get_all_receipts net bs period_from period_to tr = Some (r, tr')
        \<longrightarrow> (\<exists>ext. tr' = tr @ ext \<and> list_all (\<lambda>g. g = 1) (gaps ext)))"
  using MigrosApi_init_trace [of net bs pw user tr] gaps_login_trail get_all_receipts_trace
  by blast

theorem pauses_between_requests_witness:
  "get_all_receipts two_page_net example_bs (Datetime jan_01) (Datetime jan_31) []
     = Some (Inr (merge_pages two_page_net example_bs january 1 2 []),
             [Request (listing_request january 1), Sleep 1, Request (listing_request january 2)])
   \<and> gaps [Request (listing_request january 1), Sleep 1, Request (listing_request january 2)] = [1]"
proof -
  have run: "get_all_receipts two_page_net example_bs (Datetime jan_01) (Datetime jan_31) []
     = Some (Inr (merge_pages two_page_net example_bs january 1 2 []),
             [Request (listing_request january 1), Sleep 1, Request (listing_request january 2)])"
    by code_simp
  from pauses_between_requests [where net = two_page_net and bs = example_bs
      and period_from = "Datetime jan_01" and period_to = "Datetime jan_31" and tr = "[]"
      and r = "Inr (merge_pages two_page_net example_bs january 1 2 [])"
      and tr' = "[Request (listing_request january 1), Sleep 1, Request (listing_request january 2)]"]
    run
  have "list_all (\<lambda>g. g = 1)
          (gaps [Request (listing_request january 1), Sleep 1, Request (listing_request january 2)])"
    by auto
  with run show ?thesis by (simp add: gaps_def)
qed

text \<open>A complete login: nothing separates the credential \<^verbatim>\<open>POST\<close> from the request of
  the loyalty check.\<close>

theorem no_pause_before_cumulus_check:
  "snd (MigrosApi_init login_net example_bs ''secret'' ''user@example.org'' [])
     = login_trail ''user@example.org'' ''secret'' ''tok123''
   \<and> gaps (snd (MigrosApi_init login_net example_bs ''secret'' ''user@example.org'' [])) = [1, 3, 0]"
  by code_simp

text \<open>
  C7, as amended. Every exception of \<^verbatim>\<open>__authenticate\<close> is the client's exception with
  code 1 and a message; every exception of \<^verbatim>\<open>_login_cumulus\<close> is the client's exception
  with code 1 or 3 and a message; the constructor raises one of these or, from the warm-up,
  the exception of the transport as it is. \<^verbatim>\<open>get_all_receipts\<close> raises the client's
  exception with code 4 or 5 for its arguments, and wraps everything else, a failure of
  the transport or of the extraction alike, in a plain \<^verbatim>\<open>Exception\<close> whose text starts
  with \<^verbatim>\<open>Failed to get receipts: \<close> and which has no code.
\<close>

theorem errors_raised_to_caller:
  "(fst (authenticate net bs user pw tr) = Inl e1
      \<longrightarrow> (\<exists>m. e1 = MigrosApiError (Some ''1'') (Some m)))
   \<and> (fst (login_cumulus net bs user pw tr) = Inl e2
      \<longrightarrow> (\<exists>c m. e2 = MigrosApiError (Some c) (Some m) \<and> (c = ''1'' \<or> c = ''3'')))
   \<and> (fst (MigrosApi_init net bs pw user tr) = Inl e3
      \<longrightarrow> (\<exists>c m. e3 = MigrosApiError (Some c) (Some m) \<and> (c = ''1'' \<or> c = ''3''))
          \<or> (\<exists>m. e3 = RequestException m) \<or> (\<exists>m. e3 = OtherError m))
   \<and> (get_all_receipts net bs period_from period_to tr = Some (Inl e4, tr')
      \<longrightarrow> e4 = MigrosApiError (Some ''4'') (dict_get ERROR_CODES (PyInt 4))
          \<or> e4 = MigrosApiError (Some ''5'') (dict_get ERROR_CODES (PyInt 5))
          \<or> (\<exists>m. e4 = PyException (''Failed to get receipts: '' @ m)))"
  using authenticate_errors [of net bs user pw tr e1] login_cumulus_errors [of net bs user pw tr e2]
    MigrosApi_init_errors [of net bs pw user tr e3]
    get_all_receipts_errors [of net bs period_from period_to tr e4 tr']
  by blast

text \<open>A listing page whose detail link has no \<^verbatim>\<open>href\<close>, and a listing request that
  the transport refuses: in both cases the caller gets a plain exception without code.\<close>

theorem extraction_failure_plain_exception:
  "get_all_receipts (fixed_net ''link without href'') example_bs (Datetime jan_01) (Datetime jan_31) []
     = Some (Inl (PyException
                   (''Failed to get receipts: Failed to parse receipt data: '' @ none_has_no_split)),
             [Request (listing_request january 1)])
   \<and> get_all_receipts refusing_net example_bs (Datetime jan_01) (Datetime jan_31) []
     = Some (Inl (PyException ''Failed to get receipts: Connection refused''),
             [Request (listing_request january 1)])"
  by code_simp

theorem errors_raised_to_caller_witness:
  "fst (authenticate refusing_net example_bs ''user@example.org'' ''secret'' [])
     = Inl (MigrosApiError (Some ''1'')
             (Some ''Network error during authentication: Connection refused''))
   \<and> fst (login_cumulus refusing_net example_bs ''user@example.org'' ''secret'' [])
     = Inl (MigrosApiError (Some ''1'')
             (Some ''Network error during authentication: Connection refused''))
   \<and> fst (MigrosApi_init refusing_net example_bs ''secret'' ''user@example.org'' [])
     = Inl (RequestException ''Connection refused'')
   \<and> get_all_receipts refusing_net example_bs (Datetime jan_01) (Datetime jan_31) []
     = Some (Inl (PyException ''Failed to get receipts: Connection refused''),
             [Request (listing_request january 1)])
   \<and> (\<exists>m. PyException ''Failed to get receipts: Connection refused''
           = PyException (''Failed to get receipts: '' @ m))"
proof -
  have a: "fst (authenticate refusing_net example_bs ''user@example.org'' ''secret'' [])
     = Inl (MigrosApiError (Some ''1'')
             (Some ''Network error during authentication: Connection refused''))"
    by code_simp
  have b: "fst (login_cumulus refusing_net example_bs ''user@example.org'' ''secret'' [])
     = Inl (MigrosApiError (Some ''1'')
             (Some ''Network error during authentication: Connection refused''))"
    by code_simp
  have c: "fst (MigrosApi_init refusing_net example_bs ''secret'' ''user@example.org'' [])
     = Inl (RequestException ''Connection refused'')"
    by code_simp
  have d: "get_all_receipts refusing_net example_bs (Datetime jan_01) (Datetime jan_31) []
     = Some (Inl (PyException ''Failed to get receipts: Connection refused''),
             [Request (listing_request january 1)])"
    by code_simp
  from errors_raised_to_caller [where net = refusing_net and bs = example_bs
      and user = "''user@example.org''" and pw = "''secret''" and tr = "[]"
      and period_from = "Datetime jan_01" and period_to = "Datetime jan_31"
      and ?e1.0 = "MigrosApiError (Some ''1'')
             (Some ''Network error during authentication: Connection refused'')"
      and ?e2.0 = "MigrosApiError (Some ''1'')
             (Some ''Network error during authentication: Connection refused'')"
      and ?e3.0 = "RequestException ''Connection refused''"
      and ?e4.0 = "PyException ''Failed to get receipts: Connection refused''"
      and tr' = "[Request (listing_request january 1)]"] a b c d
  show ?thesis by auto
qed

end
